theory Spec2Isabelle
  imports Complex_Main "HOL-Library.Char_ord" "HOL-Library.List_Lexorder" "HOL-Library.Sublist"
begin

section \<open>cluster\_boot\_benchmark.py: data model\<close>

text \<open>
  The benchmark reads lifecycle timestamps from virtual machine objects and turns them into
  samples. A timestamp attribute of a VM holds either \<open>None\<close> or a number of seconds; numbers
  are modelled as \<^typ>\<open>real\<close> (Python floats without their rounding), an attribute as
  \<^typ>\<open>real option\<close>. The exceptions the functions can raise are values of \<open>error\<close>; a function
  that can raise returns \<open>error + 'a\<close> with \<open>Inl\<close> for the exception. \<open>TaskFailed\<close> stands for
  whatever a reboot or delete task of a VM raises.
\<close>

datatype error = AssertionError | TypeError | ValueError | TaskFailed

text \<open>
  Modelled from the spec: the instance record. The class \<open>BaseVirtualMachine\<close> belongs to the
  module \<open>virtual_machine\<close>; the fields are the attributes that the benchmark reads from it,
  under the names the benchmark uses: the OS type tag, and the lifecycle timestamps, each of
  them optional. \<open>BaseLinuxMixin\<close> is the outcome of
  \<open>isinstance(vm, linux_virtual_machine.BaseLinuxMixin)\<close>.
\<close>

record vm =
  OS_TYPE :: string
  BaseLinuxMixin :: bool
  create_start_time :: "real option"
  create_return_time :: "real option"
  is_running_time :: "real option"
  ssh_external_time :: "real option"
  ssh_internal_time :: "real option"
  bootable_time :: "real option"
  port_listening_time :: "real option"
  rdp_port_listening_time :: "real option"
  delete_start_time :: "real option"
  delete_end_time :: "real option"

text \<open>
  The flags that the benchmark reads. The first two are defined in the benchmark, the third
  by another module of the repository.
\<close>

record FLAGS =
  cluster_boot_time_reboot :: bool
  cluster_boot_test_port_listening :: bool
  cluster_boot_test_rdp_port_listening :: bool

text \<open>
  The values stored in a metadata dictionary are integers and strings. A dictionary literal is
  modelled as the association list of its items in the order they are written.
\<close>

datatype meta_value = MInt int | MStr string

type_synonym metadata_dict = "(string \<times> meta_value) list"

text \<open>
  Modelled from the spec: the metric sample, a record of name, value, unit and metadata, built
  by \<open>sample.Sample(metric, value, unit, metadata)\<close> of the module \<open>sample\<close>. The four fields
  that the benchmark passes are kept; a creation timestamp that the constructor may add on
  its own is not part of the model.
\<close>

record sample =
  metric :: string
  val :: real
  unit_str :: string
  metadata :: metadata_dict

definition Sample :: "string \<Rightarrow> real \<Rightarrow> string \<Rightarrow> metadata_dict \<Rightarrow> sample" where
  "Sample m v u md = \<lparr>metric = m, val = v, unit_str = u, metadata = md\<rparr>"

section \<open>Python built-ins used by the benchmark\<close>

text \<open>Truth value of a timestamp attribute: \<open>None\<close> and \<open>0\<close> are false.\<close>

fun truthy :: "real option \<Rightarrow> bool" where
  "truthy None = False"
| "truthy (Some t) = (t \<noteq> 0)"

text \<open>\<open>a < b\<close> on attributes: comparing with \<open>None\<close> raises \<open>TypeError\<close>.\<close>

fun py_lt :: "real option \<Rightarrow> real option \<Rightarrow> error + bool" where
  "py_lt (Some a) (Some b) = Inr (a < b)"
| "py_lt _ _ = Inl TypeError"

text \<open>
  \<open>min(iterable)\<close>: the first item is the candidate, every later item replaces it when
  \<open>item < candidate\<close>; an empty iterable raises \<open>ValueError\<close>. A single item is returned
  without any comparison, also when it is \<open>None\<close>. \<open>max\<close> is the same with \<open>item > candidate\<close>.
\<close>

fun min_loop :: "real option \<Rightarrow> real option list \<Rightarrow> error + real option" where
  "min_loop m [] = Inr m"
| "min_loop m (x # xs) =
     (case py_lt x m of Inl e \<Rightarrow> Inl e | Inr b \<Rightarrow> min_loop (if b then x else m) xs)"

definition py_min :: "real option list \<Rightarrow> error + real option" where
  "py_min xs = (case xs of [] \<Rightarrow> Inl ValueError | x # rest \<Rightarrow> min_loop x rest)"

fun max_loop :: "real option \<Rightarrow> real option list \<Rightarrow> error + real option" where
  "max_loop m [] = Inr m"
| "max_loop m (x # xs) =
     (case py_lt m x of Inl e \<Rightarrow> Inl e | Inr b \<Rightarrow> max_loop (if b then x else m) xs)"

definition py_max :: "real option list \<Rightarrow> error + real option" where
  "py_max xs = (case xs of [] \<Rightarrow> Inl ValueError | x # rest \<Rightarrow> max_loop x rest)"

text \<open>\<open>a - b\<close> on attributes: \<open>None\<close> as an operand raises \<open>TypeError\<close>.\<close>

fun py_sub :: "real option \<Rightarrow> real option \<Rightarrow> error + real" where
  "py_sub (Some a) (Some b) = Inr (a - b)"
| "py_sub _ _ = Inl TypeError"

text \<open>\<open>sep.join(items)\<close>.\<close>

fun join :: "string \<Rightarrow> string list \<Rightarrow> string" where
  "join sep [] = []"
| "join sep [x] = x"
| "join sep (x # y # ys) = x @ sep @ join sep (y # ys)"

text \<open>
  \<open>'%0.1f' % x\<close>: the decimal rendering of \<open>x\<close> with one digit after the point, rounded to the
  nearest tenth, a tie going to the even digit.
\<close>

definition round_half_even :: "real \<Rightarrow> int" where
  "round_half_even x =
     (let f = \<lfloor>x\<rfloor>; d = x - of_int f
      in if d < 1 / 2 then f else if 1 / 2 < d then f + 1 else if even f then f else f + 1)"

function str_nat :: "nat \<Rightarrow> string" where
  "str_nat n =
     (if n < 10 then [''0123456789'' ! n] else str_nat (n div 10) @ [''0123456789'' ! (n mod 10)])"
  by pat_completeness auto
termination
  by (relation "measure id") auto

declare str_nat.simps [simp del]

definition format_0_1f :: "real \<Rightarrow> string" where
  "format_0_1f x =
     (let n = nat (round_half_even (\<bar>x\<bar> * 10))
      in (if x < 0 then ''-'' else '''') @ str_nat (n div 10) @ ''.'' @ str_nat (n mod 10))"

section \<open>GetTimeToBoot\<close>

text \<open>The variables that the loop over the VMs updates.\<close>

record loop_vars =
  samples :: "sample list"
  os_types :: "string set"
  max_create_delay_sec :: real
  max_boot_time_sec :: real
  max_port_listening_time_sec :: real
  max_rdp_port_listening_time_sec :: real

definition init_vars :: loop_vars where
  "init_vars = \<lparr>samples = [], os_types = {}, max_create_delay_sec = 0, max_boot_time_sec = 0,
     max_port_listening_time_sec = 0, max_rdp_port_listening_time_sec = 0\<rparr>"

text \<open>The per-VM metadata dictionary.\<close>

definition vm_metadata :: "nat \<Rightarrow> nat \<Rightarrow> vm \<Rightarrow> real \<Rightarrow> metadata_dict" where
  "vm_metadata i num_vms v create_delay_sec =
     [(''machine_instance'', MInt (int i)),
      (''num_vms'', MInt (int num_vms)),
      (''os_type'', MStr (OS_TYPE v)),
      (''create_delay_sec'', MStr (format_0_1f create_delay_sec))]"

text \<open>
  \<open>if vm.t: samples.append(sample.Sample(name, vm.t - origin, 'seconds', metadata))\<close>:
  the list of samples appended, empty when the attribute is false.
\<close>

fun opt_sample :: "string \<Rightarrow> real option \<Rightarrow> real \<Rightarrow> metadata_dict \<Rightarrow> sample list" where
  "opt_sample name None origin md = []"
| "opt_sample name (Some t) origin md =
     (if t \<noteq> 0 then [Sample name (t - origin) ''seconds'' md] else [])"

text \<open>\<open>create_delay_sec = vm.create_start_time - min_create_start_time\<close>.\<close>

definition create_delay_sec :: "real \<Rightarrow> real \<Rightarrow> real" where
  "create_delay_sec c min_create_start_time = c - min_create_start_time"

text \<open>
  One iteration of \<open>for i, vm in enumerate(vms)\<close>, in three parts. \<open>boot_block\<close> is the
  iteration up to the append of the Boot Time sample, once the three asserts have passed and
  \<open>min_create_start_time\<close> is a number \<open>m\<close>; \<open>c\<close> and \<open>b\<close> are the VM's create start and bootable
  times.
\<close>

definition boot_block :: "vm \<Rightarrow> real \<Rightarrow> real \<Rightarrow> real \<Rightarrow> metadata_dict \<Rightarrow> loop_vars \<Rightarrow> loop_vars" where
  "boot_block v c b m md st =
    (let st = st\<lparr>os_types := insert (OS_TYPE v) (os_types st),
                 max_create_delay_sec := max (max_create_delay_sec st) (create_delay_sec c m)\<rparr>;
         st = st\<lparr>samples := samples st
                   @ opt_sample ''Time to Create Async Return'' (create_return_time v) m md\<rparr>;
         st = st\<lparr>samples := samples st @ opt_sample ''Time to Running'' (is_running_time v) c md\<rparr>;
         boot_time_sec = b - m;
         st = (if BaseLinuxMixin v
               then st\<lparr>samples := samples st
                         @ opt_sample ''Time to SSH - External'' (ssh_external_time v) m md
                         @ opt_sample ''Time to SSH - Internal'' (ssh_internal_time v) m md\<rparr>
               else st)
     in st\<lparr>max_boot_time_sec := max (max_boot_time_sec st) boot_time_sec,
            samples := samples st @ [Sample ''Boot Time'' boot_time_sec ''seconds'' md]\<rparr>)"

text \<open>\<open>if FLAGS.cluster_boot_test_port_listening: ...\<close> with its two asserts.\<close>

definition port_block ::
    "FLAGS \<Rightarrow> vm \<Rightarrow> real \<Rightarrow> real \<Rightarrow> metadata_dict \<Rightarrow> loop_vars \<Rightarrow> error + loop_vars" where
  "port_block fl v c m md st =
    (if cluster_boot_test_port_listening fl then
       (case port_listening_time v of
          None \<Rightarrow> Inl AssertionError
        | Some p \<Rightarrow>
            if p = 0 then Inl AssertionError
            else if \<not> c \<le> p then Inl AssertionError
            else Inr (st\<lparr>max_port_listening_time_sec :=
                           max (max_port_listening_time_sec st) (p - m),
                         samples := samples st
                           @ [Sample ''Port Listening Time'' (p - m) ''seconds'' md]\<rparr>))
     else Inr st)"

text \<open>\<open>if FLAGS.cluster_boot_test_rdp_port_listening: ...\<close> with its two asserts.\<close>

definition rdp_block ::
    "FLAGS \<Rightarrow> vm \<Rightarrow> real \<Rightarrow> real \<Rightarrow> metadata_dict \<Rightarrow> loop_vars \<Rightarrow> error + loop_vars" where
  "rdp_block fl v c m md st =
    (if cluster_boot_test_rdp_port_listening fl then
       (case rdp_port_listening_time v of
          None \<Rightarrow> Inl AssertionError
        | Some r \<Rightarrow>
            if r = 0 then Inl AssertionError
            else if \<not> c \<le> r then Inl AssertionError
            else Inr (st\<lparr>max_rdp_port_listening_time_sec :=
                           max (max_rdp_port_listening_time_sec st) (r - m),
                         samples := samples st
                           @ [Sample ''RDP Port Listening Time'' (r - m) ''seconds'' md]\<rparr>))
     else Inr st)"

text \<open>
  The whole iteration: the three asserts, then the blocks. The first subtraction of
  \<open>min_create_start_time\<close> raises \<open>TypeError\<close> when it is \<open>None\<close>.
\<close>

definition loop_body ::
    "FLAGS \<Rightarrow> real option \<Rightarrow> nat \<Rightarrow> nat \<Rightarrow> vm \<Rightarrow> loop_vars \<Rightarrow> error + loop_vars" where
  "loop_body fl min_create_start_time num_vms i v st =
    (case create_start_time v of
       None \<Rightarrow> Inl AssertionError
     | Some c \<Rightarrow>
        (if c = 0 then Inl AssertionError
         else (case bootable_time v of
             None \<Rightarrow> Inl AssertionError
           | Some b \<Rightarrow>
              (if b = 0 then Inl AssertionError
               else if \<not> c \<le> b then Inl AssertionError
               else (case min_create_start_time of
                   None \<Rightarrow> Inl TypeError
                 | Some m \<Rightarrow>
                    (let md = vm_metadata i num_vms v (create_delay_sec c m)
                     in (case port_block fl v c m md (boot_block v c b m md st) of
                           Inl e \<Rightarrow> Inl e
                         | Inr st' \<Rightarrow> rdp_block fl v c m md st')))))))"

text \<open>The loop: the iterations in list order, the first exception ends the call.\<close>

fun boot_loop ::
    "FLAGS \<Rightarrow> real option \<Rightarrow> nat \<Rightarrow> nat \<Rightarrow> vm list \<Rightarrow> loop_vars \<Rightarrow> error + loop_vars" where
  "boot_loop fl m num_vms i [] st = Inr st"
| "boot_loop fl m num_vms i (v # rest) st =
     (case loop_body fl m num_vms i v st of
        Inl e \<Rightarrow> Inl e
      | Inr st' \<Rightarrow> boot_loop fl m num_vms (Suc i) rest st')"

text \<open>The cluster-wide samples appended after the loop.\<close>

definition cluster_samples :: "FLAGS \<Rightarrow> nat \<Rightarrow> loop_vars \<Rightarrow> sample list" where
  "cluster_samples fl num_vms st =
     (let md = [(''num_vms'', MInt (int num_vms)),
                (''os_type'', MStr (join '','' (sorted_list_of_set (os_types st)))),
                (''max_create_delay_sec'', MStr (format_0_1f (max_create_delay_sec st)))]
      in [Sample ''Cluster Boot Time'' (max_boot_time_sec st) ''seconds'' md]
         @ (if cluster_boot_test_port_listening fl
            then [Sample ''Cluster Port Listening Time'' (max_port_listening_time_sec st)
                    ''seconds'' md]
            else [])
         @ (if cluster_boot_test_rdp_port_listening fl
            then [Sample ''Cluster RDP Port Listening Time'' (max_rdp_port_listening_time_sec st)
                    ''seconds'' md]
            else []))"

text \<open>
  \<open>GetTimeToBoot(vms)\<close>, with the flags as an argument. The warning logged when
  \<open>max_create_delay_sec > 1\<close> does not change the result and is \<open>create_delay_warning\<close>.
\<close>

definition GetTimeToBoot :: "FLAGS \<Rightarrow> vm list \<Rightarrow> error + sample list" where
  "GetTimeToBoot fl vms =
     (if vms = [] then Inr []
      else (case py_min (map create_start_time vms) of
          Inl e \<Rightarrow> Inl e
        | Inr min_create_start_time \<Rightarrow>
           (case boot_loop fl min_create_start_time (length vms) 0 vms init_vars of
              Inl e \<Rightarrow> Inl e
            | Inr st \<Rightarrow> Inr (samples st @ cluster_samples fl (length vms) st))))"

definition create_delay_warning :: "loop_vars \<Rightarrow> bool" where
  "create_delay_warning st = (1 < max_create_delay_sec st)"

section \<open>Reboot and delete measurements\<close>

text \<open>
  \<open>_GetVmOperationDataSamples(operation_times, cluster_time, operation, vms)\<close>: the metadata
  dictionaries of the VMs are built first, then zipped with the operation times (\<open>zip\<close> stops at
  the shorter list), and the cluster sample is appended last.
\<close>

definition GetVmOperationDataSamples ::
    "real list \<Rightarrow> real \<Rightarrow> string \<Rightarrow> vm list \<Rightarrow> sample list" where
  "GetVmOperationDataSamples operation_times cluster_time operation vms =
     (let metadata_list =
            map (\<lambda>(i, v). [(''machine_instance'', MInt (int i)),
                            (''num_vms'', MInt (int (length vms))),
                            (''os_type'', MStr (OS_TYPE v))])
                (enumerate 0 vms);
          per_vm = map (\<lambda>(operation_time, md).
                          Sample (operation @ '' Time'') operation_time ''seconds'' md)
                       (zip operation_times metadata_list);
          os_types = set (map OS_TYPE vms);
          md = [(''num_vms'', MInt (int (length vms))),
                (''os_type'', MStr (join '','' (sorted_list_of_set os_types)))]
      in per_vm @ [Sample (''Cluster '' @ operation @ '' Time'') cluster_time ''seconds'' md])"

text \<open>
  Modelled from the spec: \<open>background_tasks.RunThreaded\<close>, a function of another module.
  It invokes the operation on every instance, one task per instance, blocks until all tasks
  have finished and hands back their results in the order of the instances; a failing task's
  error propagates and aborts the whole call. The interleaving of the tasks is not modelled:
  a task is a function of its own VM, and of several failures the one of the earliest VM in
  the list is reported.
\<close>

fun RunThreaded :: "('a \<Rightarrow> error + 'b) \<Rightarrow> 'a list \<Rightarrow> error + 'b list" where
  "RunThreaded f [] = Inr []"
| "RunThreaded f (x # xs) =
     (case f x of
        Inl e \<Rightarrow> Inl e
      | Inr y \<Rightarrow> (case RunThreaded f xs of Inl e \<Rightarrow> Inl e | Inr ys \<Rightarrow> Inr (y # ys)))"

text \<open>
  \<open>_MeasureReboot(vms)\<close>. The task \<open>vm.Reboot()\<close> belongs to the virtual machine classes and
  is the argument \<open>Reboot\<close>, which gives the duration the VM reports. The two readings of
  \<open>time.time()\<close>, before the fan-out and after it has returned, are the arguments
  \<open>before_reboot_timestamp\<close> and \<open>after_reboot_timestamp\<close>. Of the VMs only \<open>OS_TYPE\<close> is read
  after the tasks, an attribute of the class that a task does not change.
\<close>

definition MeasureReboot ::
    "(vm \<Rightarrow> error + real) \<Rightarrow> real \<Rightarrow> real \<Rightarrow> vm list \<Rightarrow> error + sample list" where
  "MeasureReboot Reboot before_reboot_timestamp after_reboot_timestamp vms =
     (case RunThreaded Reboot vms of
        Inl e \<Rightarrow> Inl e
      | Inr reboot_times \<Rightarrow>
          (let cluster_reboot_time = after_reboot_timestamp - before_reboot_timestamp
           in Inr (GetVmOperationDataSamples reboot_times cluster_reboot_time ''Reboot'' vms)))"

text \<open>\<open>[vm.delete_end_time - vm.delete_start_time for vm in vms]\<close>.\<close>

fun delete_times :: "vm list \<Rightarrow> error + real list" where
  "delete_times [] = Inr []"
| "delete_times (v # vs) =
     (case py_sub (delete_end_time v) (delete_start_time v) of
        Inl e \<Rightarrow> Inl e
      | Inr d \<Rightarrow> (case delete_times vs of Inl e \<Rightarrow> Inl e | Inr ds \<Rightarrow> Inr (d # ds)))"

text \<open>
  \<open>MeasureDelete(vms)\<close>. The task \<open>vm.Delete()\<close> sets the delete timestamps of its VM and is
  the argument \<open>Delete\<close>, which gives the VM as the task leaves it; the reading of
  \<open>time.time()\<close> before the fan-out is the argument \<open>before_delete_timestamp\<close>.
\<close>

definition MeasureDelete :: "(vm \<Rightarrow> error + vm) \<Rightarrow> real \<Rightarrow> vm list \<Rightarrow> error + sample list" where
  "MeasureDelete Delete before_delete_timestamp vms =
     (case RunThreaded Delete vms of
        Inl e \<Rightarrow> Inl e
      | Inr vms' \<Rightarrow>
     (case delete_times vms' of
        Inl e \<Rightarrow> Inl e
      | Inr dts \<Rightarrow>
     (case py_max (map delete_end_time vms') of
        Inl e \<Rightarrow> Inl e
      | Inr max_delete_end_time \<Rightarrow>
     (case py_sub max_delete_end_time (Some before_delete_timestamp) of
        Inl e \<Rightarrow> Inl e
      | Inr cluster_delete_time \<Rightarrow>
          Inr (GetVmOperationDataSamples dts cluster_delete_time ''Delete'' vms')))))"

text \<open>\<open>Run(benchmark_spec)\<close>: the reboot measurement when its flag is set.\<close>

definition Run ::
    "FLAGS \<Rightarrow> (vm \<Rightarrow> error + real) \<Rightarrow> real \<Rightarrow> real \<Rightarrow> vm list \<Rightarrow> error + sample list" where
  "Run fl Reboot before_reboot_timestamp after_reboot_timestamp vms =
     (if cluster_boot_time_reboot fl
      then MeasureReboot Reboot before_reboot_timestamp after_reboot_timestamp vms
      else Inr [])"

section \<open>Notions used to state the properties\<close>

text \<open>
  The asserts of one loop iteration as a predicate on the VM: the two required timestamps are
  true values in order, and so is each port timestamp whose flag is set.
\<close>

definition required_after :: "real option \<Rightarrow> real option \<Rightarrow> bool" where
  "required_after start t = (truthy t \<and> the start \<le> the t)"

definition vm_asserts :: "FLAGS \<Rightarrow> vm \<Rightarrow> bool" where
  "vm_asserts fl v =
     (truthy (create_start_time v) \<and> required_after (create_start_time v) (bootable_time v)
      \<and> (if cluster_boot_test_port_listening fl
         then required_after (create_start_time v) (port_listening_time v) else True)
      \<and> (if cluster_boot_test_rdp_port_listening fl
         then required_after (create_start_time v) (rdp_port_listening_time v) else True))"

text \<open>The reference time of a list of VMs whose create start times are all set.\<close>

definition reference_time :: "vm list \<Rightarrow> real" where
  "reference_time vms = Min (set (map (\<lambda>v. the (create_start_time v)) vms))"

text \<open>The samples of one metric, and the samples that carry the index of one instance.\<close>

definition named :: "string \<Rightarrow> sample list \<Rightarrow> sample list" where
  "named name ss = filter (\<lambda>s. metric s = name) ss"

definition of_instance :: "nat \<Rightarrow> sample list \<Rightarrow> sample list" where
  "of_instance i ss =
     filter (\<lambda>s. map_of (metadata s) ''machine_instance'' = Some (MInt (int i))) ss"

text \<open>The samples that one iteration appends when its asserts hold.\<close>

definition vm_samples :: "FLAGS \<Rightarrow> real \<Rightarrow> nat \<Rightarrow> nat \<Rightarrow> vm \<Rightarrow> sample list" where
  "vm_samples fl m num_vms i v =
     (let c = the (create_start_time v);
          md = vm_metadata i num_vms v (create_delay_sec c m)
      in opt_sample ''Time to Create Async Return'' (create_return_time v) m md
         @ opt_sample ''Time to Running'' (is_running_time v) c md
         @ (if BaseLinuxMixin v
            then opt_sample ''Time to SSH - External'' (ssh_external_time v) m md
                 @ opt_sample ''Time to SSH - Internal'' (ssh_internal_time v) m md
            else [])
         @ [Sample ''Boot Time'' (the (bootable_time v) - m) ''seconds'' md]
         @ (if cluster_boot_test_port_listening fl
            then [Sample ''Port Listening Time'' (the (port_listening_time v) - m) ''seconds'' md]
            else [])
         @ (if cluster_boot_test_rdp_port_listening fl
            then [Sample ''RDP Port Listening Time'' (the (rdp_port_listening_time v) - m)
                    ''seconds'' md]
            else []))"

text \<open>The metric names of one instance in the order of the source.\<close>

definition instance_metric_order :: "string list" where
  "instance_metric_order =
     [''Time to Create Async Return'', ''Time to Running'', ''Time to SSH - External'',
      ''Time to SSH - Internal'', ''Boot Time'', ''Port Listening Time'',
      ''RDP Port Listening Time'']"

definition cluster_metric_order :: "string list" where
  "cluster_metric_order =
     [''Cluster Boot Time'', ''Cluster Port Listening Time'', ''Cluster RDP Port Listening Time'']"

text \<open>The loop variables after one iteration, and after the iterations of a list of VMs, when the
  asserts hold and the reference time is \<open>m\<close>.\<close>

definition after_vm :: "FLAGS \<Rightarrow> real \<Rightarrow> nat \<Rightarrow> nat \<Rightarrow> vm \<Rightarrow> loop_vars \<Rightarrow> loop_vars" where
  "after_vm fl m n i v st =
     \<lparr>samples = samples st @ vm_samples fl m n i v,
      os_types = insert (OS_TYPE v) (os_types st),
      max_create_delay_sec = max (max_create_delay_sec st) (the (create_start_time v) - m),
      max_boot_time_sec = max (max_boot_time_sec st) (the (bootable_time v) - m),
      max_port_listening_time_sec =
        (if cluster_boot_test_port_listening fl
         then max (max_port_listening_time_sec st) (the (port_listening_time v) - m)
         else max_port_listening_time_sec st),
      max_rdp_port_listening_time_sec =
        (if cluster_boot_test_rdp_port_listening fl
         then max (max_rdp_port_listening_time_sec st) (the (rdp_port_listening_time v) - m)
         else max_rdp_port_listening_time_sec st)\<rparr>"

fun after_vms :: "FLAGS \<Rightarrow> real \<Rightarrow> nat \<Rightarrow> nat \<Rightarrow> vm list \<Rightarrow> loop_vars \<Rightarrow> loop_vars" where
  "after_vms fl m n i [] st = st"
| "after_vms fl m n i (v # vs) st = after_vms fl m n (Suc i) vs (after_vm fl m n i v st)"

section \<open>Example inputs\<close>

text \<open>A Linux VM on which only the two required timestamps are set, and the flag settings.\<close>

definition plain_vm :: "real \<Rightarrow> real \<Rightarrow> vm" where
  "plain_vm c b =
     \<lparr>OS_TYPE = ''ubuntu2004'', BaseLinuxMixin = True, create_start_time = Some c,
      create_return_time = None, is_running_time = None, ssh_external_time = None,
      ssh_internal_time = None, bootable_time = Some b, port_listening_time = None,
      rdp_port_listening_time = None, delete_start_time = None, delete_end_time = None\<rparr>"

definition no_flags :: FLAGS where
  "no_flags = \<lparr>cluster_boot_time_reboot = False, cluster_boot_test_port_listening = False,
     cluster_boot_test_rdp_port_listening = False\<rparr>"

definition port_flag :: FLAGS where
  "port_flag = \<lparr>cluster_boot_time_reboot = False, cluster_boot_test_port_listening = True,
     cluster_boot_test_rdp_port_listening = False\<rparr>"

text \<open>Three VMs created at 100, 101 and 103 and bootable at 110, 113 and 115.\<close>

definition three_vms :: "vm list" where
  "three_vms = [plain_vm 100 110, plain_vm 101 113, plain_vm 103 115]"

text \<open>
  Two VMs created at 100 and 103 that were seen running four seconds after their own create
  start, and a VM whose running time lies before its create start.
\<close>

definition running_vm :: "real \<Rightarrow> real \<Rightarrow> real \<Rightarrow> vm" where
  "running_vm c r b = (plain_vm c b)\<lparr>is_running_time := Some r\<rparr>"

definition two_running_vms :: "vm list" where
  "two_running_vms = [running_vm 100 104 110, running_vm 103 107 112]"

definition early_running_vm :: vm where
  "early_running_vm = running_vm 100 50 110"

text \<open>VMs with a port listening time, and a VM whose optional timestamps are all \<open>0\<close>.\<close>

definition port_vm :: "real \<Rightarrow> real \<Rightarrow> real \<Rightarrow> vm" where
  "port_vm c b p = (plain_vm c b)\<lparr>port_listening_time := Some p\<rparr>"

definition two_port_vms :: "vm list" where
  "two_port_vms = [port_vm 100 110 108, port_vm 101 113 112]"

definition zero_optional_vm :: vm where
  "zero_optional_vm =
     (plain_vm 100 110)\<lparr>create_return_time := Some 0, is_running_time := Some 0,
        ssh_external_time := Some 0, ssh_internal_time := Some 0\<rparr>"

text \<open>Two VMs of which the second has no port listening time.\<close>

definition unset_port_vms :: "vm list" where
  "unset_port_vms = [port_vm 100 110 108, plain_vm 101 113]"

text \<open>
  Two VMs with example tasks: the first reports a reboot of 5 seconds and is deleted from 0
  to 6, the second reports 7 seconds and is deleted from 1 to 9.
\<close>

definition debian_vm :: vm where
  "debian_vm = (plain_vm 100 110)\<lparr>OS_TYPE := ''debian11''\<rparr>"

definition two_os_vms :: "vm list" where
  "two_os_vms = [debian_vm, plain_vm 101 113]"

definition reboot_task :: "vm \<Rightarrow> error + real" where
  "reboot_task v = Inr (if OS_TYPE v = ''debian11'' then 5 else 7)"

definition delete_task :: "vm \<Rightarrow> error + vm" where
  "delete_task v =
     Inr (if OS_TYPE v = ''debian11''
          then v\<lparr>delete_start_time := Some 0, delete_end_time := Some 6\<rparr>
          else v\<lparr>delete_start_time := Some 1, delete_end_time := Some 9\<rparr>)"

definition two_deleted_vms :: "vm list" where
  "two_deleted_vms =
     [debian_vm\<lparr>delete_start_time := Some 0, delete_end_time := Some 6\<rparr>,
      (plain_vm 101 113)\<lparr>delete_start_time := Some 1, delete_end_time := Some 9\<rparr>]"

section \<open>Auxiliary facts\<close>

subsection \<open>The reference time\<close>

lemma min_loop_Some:
  "min_loop (Some m) (map Some xs) = Inr (Some (Min (insert m (set xs))))"
proof (induction xs arbitrary: m)
  case Nil
  show ?case by simp
next
  case (Cons x xs)
  have pick: "(if x < m then x else m) = min x m"
    by (simp add: min_def)
  have "Min (insert (min x m) (set xs)) = Min (insert m (insert x (set xs)))"
  proof (cases "set xs = {}")
    case True
    then show ?thesis by (simp add: min.commute)
  next
    case False
    then show ?thesis by (simp add: min.assoc min.commute)
  qed
  with Cons [of "min x m"] show ?case
    by (simp add: pick if_distrib [of Some, symmetric])
qed

lemma py_min_all_set:
  assumes "vms \<noteq> []" and "list_all (\<lambda>v. create_start_time v \<noteq> None) vms"
  shows "py_min (map create_start_time vms) = Inr (Some (reference_time vms))"
proof -
  define cs where "cs = map (\<lambda>v. the (create_start_time v)) vms"
  have eq: "map create_start_time vms = map Some cs"
    using assms(2) unfolding cs_def by (induction vms) auto
  obtain c rest where cs: "cs = c # rest"
    using assms(1) unfolding cs_def by (cases vms) auto
  have "py_min (map Some cs) = Inr (Some (Min (set cs)))"
    unfolding cs py_min_def using min_loop_Some [of c rest] by simp
  then show ?thesis
    unfolding eq reference_time_def cs_def .
qed

lemma vm_asserts_iff:
  "vm_asserts fl v \<longleftrightarrow>
     (\<exists>c b. create_start_time v = Some c \<and> c \<noteq> 0 \<and> bootable_time v = Some b \<and> b \<noteq> 0 \<and> c \<le> b
        \<and> (cluster_boot_test_port_listening fl \<longrightarrow>
             (\<exists>p. port_listening_time v = Some p \<and> p \<noteq> 0 \<and> c \<le> p))
        \<and> (cluster_boot_test_rdp_port_listening fl \<longrightarrow>
             (\<exists>r. rdp_port_listening_time v = Some r \<and> r \<noteq> 0 \<and> c \<le> r)))"
  unfolding vm_asserts_def required_after_def
  by (cases "create_start_time v"; cases "bootable_time v"; cases "port_listening_time v";
      cases "rdp_port_listening_time v") auto

lemma loop_body_ok:
  assumes "vm_asserts fl v"
  shows "loop_body fl (Some m) n i v st = Inr (after_vm fl m n i v st)"
  using assms unfolding vm_asserts_iff
  by (auto simp: loop_body_def boot_block_def port_block_def rdp_block_def after_vm_def
      vm_samples_def create_delay_sec_def Let_def)

lemma loop_body_fails:
  assumes "\<not> vm_asserts fl v"
  shows "loop_body fl (Some m) n i v st = Inl AssertionError"
  using assms unfolding vm_asserts_iff
  by (auto simp: loop_body_def boot_block_def port_block_def rdp_block_def Let_def
      split: option.splits)

lemma loop_body_None:
  "\<exists>e. loop_body fl None n i v st = Inl e"
  by (auto simp: loop_body_def split: option.splits)


lemma boot_loop_ok:
  "list_all (vm_asserts fl) vms \<Longrightarrow>
   boot_loop fl (Some m) n i vms st = Inr (after_vms fl m n i vms st)"
  by (induction vms arbitrary: i st) (simp_all add: loop_body_ok)

lemma boot_loop_fails:
  "\<not> list_all (vm_asserts fl) vms \<Longrightarrow> boot_loop fl (Some m) n i vms st = Inl AssertionError"
proof (induction vms arbitrary: i st)
  case Nil
  then show ?case by simp
next
  case (Cons v vs)
  show ?case
  proof (cases "vm_asserts fl v")
    case True
    with Cons show ?thesis by (simp add: loop_body_ok)
  next
    case False
    then show ?thesis by (simp add: loop_body_fails)
  qed
qed

lemma boot_loop_None:
  "vms \<noteq> [] \<Longrightarrow> \<exists>e. boot_loop fl None n i vms st = Inl e"
proof (cases vms)
  case Nil
  then show "vms \<noteq> [] \<Longrightarrow> ?thesis" by simp
next
  case (Cons v vs)
  obtain e where "loop_body fl None n i v st = Inl e"
    using loop_body_None by blast
  with Cons show ?thesis by simp
qed

lemma samples_after_vms:
  "samples (after_vms fl m n i vms st) =
     samples st @ concat (map (\<lambda>(j, v). vm_samples fl m n j v) (enumerate i vms))"
  by (induction vms arbitrary: i st) (simp_all add: after_vm_def)

lemma Max_insert_max:
  fixes a b :: real
  assumes "finite S"
  shows "Max (insert (max a b) S) = max a (Max (insert b S))"
  using assms by (cases "S = {}") (simp_all add: max.assoc)

lemma max_boot_after_vms:
  "max_boot_time_sec (after_vms fl m n i vms st) =
     Max (insert (max_boot_time_sec st) ((\<lambda>v. the (bootable_time v) - m) ` set vms))"
proof (induction vms arbitrary: i st)
  case Nil
  show ?case by simp
next
  case (Cons v vs)
  show ?case
    by (simp add: Cons after_vm_def Max_insert_max)
qed

lemma max_create_delay_after_vms:
  "max_create_delay_sec (after_vms fl m n i vms st) =
     Max (insert (max_create_delay_sec st) ((\<lambda>v. the (create_start_time v) - m) ` set vms))"
proof (induction vms arbitrary: i st)
  case Nil
  show ?case by simp
next
  case (Cons v vs)
  show ?case
    by (simp add: Cons after_vm_def Max_insert_max)
qed

lemma max_port_after_vms:
  "cluster_boot_test_port_listening fl \<Longrightarrow>
   max_port_listening_time_sec (after_vms fl m n i vms st) =
     Max (insert (max_port_listening_time_sec st)
            ((\<lambda>v. the (port_listening_time v) - m) ` set vms))"
proof (induction vms arbitrary: i st)
  case Nil
  show ?case by simp
next
  case (Cons v vs)
  then show ?case
    by (simp add: after_vm_def Max_insert_max)
qed

lemma GetTimeToBoot_ok:
  assumes "vms \<noteq> []" and "list_all (vm_asserts fl) vms"
  shows "GetTimeToBoot fl vms =
           Inr (samples (after_vms fl (reference_time vms) (length vms) 0 vms init_vars)
                @ cluster_samples fl (length vms)
                    (after_vms fl (reference_time vms) (length vms) 0 vms init_vars))"
proof -
  have "list_all (\<lambda>v. create_start_time v \<noteq> None) vms"
    using assms(2) by (auto simp: list_all_iff vm_asserts_iff)
  then have "py_min (map create_start_time vms) = Inr (Some (reference_time vms))"
    using assms(1) by (rule py_min_all_set [rotated])
  then show ?thesis
    using assms by (simp add: GetTimeToBoot_def boot_loop_ok)
qed

lemma GetTimeToBoot_fails:
  assumes "vms \<noteq> []" and "\<not> list_all (vm_asserts fl) vms"
  shows "\<exists>e. GetTimeToBoot fl vms = Inl e"
proof (cases "py_min (map create_start_time vms)")
  case (Inl e)
  then show ?thesis using assms(1) by (simp add: GetTimeToBoot_def)
next
  case (Inr mo)
  show ?thesis
  proof (cases mo)
    case None
    obtain e where "boot_loop fl None (length vms) 0 vms init_vars = Inl e"
      using boot_loop_None [OF assms(1)] by blast
    with Inr None assms(1) show ?thesis by (simp add: GetTimeToBoot_def)
  next
    case (Some m)
    have "boot_loop fl (Some m) (length vms) 0 vms init_vars = Inl AssertionError"
      using assms(2) by (rule boot_loop_fails)
    with Inr Some assms(1) show ?thesis by (simp add: GetTimeToBoot_def)
  qed
qed

lemma GetTimeToBoot_returns_iff:
  assumes "vms \<noteq> []"
  shows "(\<exists>ss. GetTimeToBoot fl vms = Inr ss) \<longleftrightarrow> list_all (vm_asserts fl) vms"
proof
  assume "\<exists>ss. GetTimeToBoot fl vms = Inr ss"
  then obtain ss where ss: "GetTimeToBoot fl vms = Inr ss" ..
  show "list_all (vm_asserts fl) vms"
  proof (rule ccontr)
    assume "\<not> list_all (vm_asserts fl) vms"
    with assms have "\<exists>e. GetTimeToBoot fl vms = Inl e"
      by (rule GetTimeToBoot_fails)
    with ss show False by simp
  qed
next
  assume "list_all (vm_asserts fl) vms"
  then show "\<exists>ss. GetTimeToBoot fl vms = Inr ss"
    using GetTimeToBoot_ok [OF assms] by blast
qed

subsection \<open>The samples of a returning call\<close>

lemma metric_opt_sample: "s \<in> set (opt_sample name t origin md) \<Longrightarrow> metric s = name"
  by (cases t) (auto simp: Sample_def split: if_splits)

lemma metadata_opt_sample: "s \<in> set (opt_sample name t origin md) \<Longrightarrow> metadata s = md"
  by (cases t) (auto simp: Sample_def split: if_splits)

lemma metric_vm_samples:
  "s \<in> set (vm_samples fl m n i v) \<Longrightarrow> metric s \<in> set instance_metric_order"
  by (auto simp: vm_samples_def Let_def instance_metric_order_def Sample_def
      dest!: metric_opt_sample split: if_splits)

lemma metadata_vm_samples:
  "s \<in> set (vm_samples fl m n i v) \<Longrightarrow>
   metadata s = vm_metadata i n v (create_delay_sec (the (create_start_time v)) m)"
  by (auto simp: vm_samples_def Let_def Sample_def
      dest!: metadata_opt_sample split: if_splits)

lemma named_append: "named name (xs @ ys) = named name xs @ named name ys"
  by (simp add: named_def)

lemma named_empty: "(\<And>s. s \<in> set ss \<Longrightarrow> metric s \<noteq> name) \<Longrightarrow> named name ss = []"
  by (auto simp: named_def filter_empty_conv)

lemma named_instance_samples_empty:
  assumes "name \<notin> set instance_metric_order"
  shows "named name (concat (map (\<lambda>(j, v). vm_samples fl m n j v) (enumerate i vms))) = []"
proof (rule named_empty)
  fix s
  assume "s \<in> set (concat (map (\<lambda>(j, v). vm_samples fl m n j v) (enumerate i vms)))"
  then obtain j v where "s \<in> set (vm_samples fl m n j v)" by auto
  then have "metric s \<in> set instance_metric_order" by (rule metric_vm_samples)
  with assms show "metric s \<noteq> name" by auto
qed

lemma named_cluster_boot:
  "map val (named ''Cluster Boot Time'' (cluster_samples fl n st)) = [max_boot_time_sec st]"
  by (simp add: cluster_samples_def named_def Sample_def Let_def)

lemma reference_time_le:
  assumes "v \<in> set vms"
  shows "reference_time vms \<le> the (create_start_time v)"
  unfolding reference_time_def using assms by (intro Min_le) auto

lemma reference_time_in:
  assumes "vms \<noteq> []"
  shows "\<exists>v\<in>set vms. the (create_start_time v) = reference_time vms"
proof -
  have "Min (set (map (\<lambda>v. the (create_start_time v)) vms)) \<in> set (map (\<lambda>v. the (create_start_time v)) vms)"
    using assms by (intro Min_in) auto
  then show ?thesis unfolding reference_time_def by auto
qed

lemma Max_insert_lower:
  fixes a :: real
  assumes "finite S" and "S \<noteq> {}" and "\<And>x. x \<in> S \<Longrightarrow> a \<le> x"
  shows "Max (insert a S) = Max S"
proof -
  have "a \<le> Max S"
    using assms by (meson Max_in)
  then show ?thesis using assms by (simp add: max_def)
qed

lemma boot_time_nonneg:
  assumes "list_all (vm_asserts fl) vms" and "v \<in> set vms"
  shows "0 \<le> the (bootable_time v) - reference_time vms"
proof -
  have "vm_asserts fl v" using assms by (simp add: list_all_iff)
  then have "the (create_start_time v) \<le> the (bootable_time v)"
    by (auto simp: vm_asserts_iff)
  with reference_time_le [OF assms(2)] show ?thesis by simp
qed

lemma GetTimeToBoot_Inr:
  assumes "vms \<noteq> []" and "GetTimeToBoot fl vms = Inr ss"
  shows "list_all (vm_asserts fl) vms"
    and "ss = concat (map (\<lambda>(j, v). vm_samples fl (reference_time vms) (length vms) j v)
                       (enumerate 0 vms))
              @ cluster_samples fl (length vms)
                  (after_vms fl (reference_time vms) (length vms) 0 vms init_vars)"
proof -
  show ok: "list_all (vm_asserts fl) vms"
    using assms GetTimeToBoot_returns_iff by blast
  show "ss = concat (map (\<lambda>(j, v). vm_samples fl (reference_time vms) (length vms) j v)
                       (enumerate 0 vms))
              @ cluster_samples fl (length vms)
                  (after_vms fl (reference_time vms) (length vms) 0 vms init_vars)"
    using assms(2) unfolding GetTimeToBoot_ok [OF assms(1) ok]
    by (simp add: samples_after_vms init_vars_def)
qed

subsection \<open>Samples by metric and by instance\<close>

lemma named_opt_sample:
  "named name' (opt_sample name t origin md) = (if name' = name then opt_sample name t origin md else [])"
  by (cases t) (auto simp: named_def Sample_def)

lemma sel_Sample:
  "metric (Sample name x u md) = name" "val (Sample name x u md) = x"
  "unit_str (Sample name x u md) = u" "metadata (Sample name x u md) = md"
  by (simp_all add: Sample_def)

lemma named_Cons:
  "named name (s # ss) = (if metric s = name then s # named name ss else named name ss)"
  by (simp add: named_def)

lemma named_Nil: "named name [] = []"
  by (simp add: named_def)

lemma named_if: "named name (if b then xs else ys) = (if b then named name xs else named name ys)"
  by simp

lemma named_boot_vm_samples:
  "named ''Boot Time'' (vm_samples fl m n i v) =
     [Sample ''Boot Time'' (the (bootable_time v) - m) ''seconds''
        (vm_metadata i n v (create_delay_sec (the (create_start_time v)) m))]"
  by (simp add: vm_samples_def Let_def named_append named_opt_sample named_Cons sel_Sample named_Nil)

lemma named_running_vm_samples:
  "named ''Time to Running'' (vm_samples fl m n i v) =
     opt_sample ''Time to Running'' (is_running_time v) (the (create_start_time v))
        (vm_metadata i n v (create_delay_sec (the (create_start_time v)) m))"
  by (simp add: vm_samples_def Let_def named_append named_opt_sample named_Cons sel_Sample named_Nil)

lemma named_port_vm_samples:
  "named ''Port Listening Time'' (vm_samples fl m n i v) =
     (if cluster_boot_test_port_listening fl
      then [Sample ''Port Listening Time'' (the (port_listening_time v) - m) ''seconds''
              (vm_metadata i n v (create_delay_sec (the (create_start_time v)) m))]
      else [])"
  by (simp add: vm_samples_def Let_def named_append named_opt_sample named_Cons sel_Sample named_Nil)

lemma of_instance_append: "of_instance i (xs @ ys) = of_instance i xs @ of_instance i ys"
  by (simp add: of_instance_def)

lemma instance_vm_metadata:
  "map_of (vm_metadata j n v d) ''machine_instance'' = Some (MInt (int j))"
  by (simp add: vm_metadata_def)

lemma of_instance_vm_samples:
  "of_instance i (vm_samples fl m n j v) = (if i = j then vm_samples fl m n j v else [])"
proof -
  have "\<And>s. s \<in> set (vm_samples fl m n j v) \<Longrightarrow>
          map_of (metadata s) ''machine_instance'' = Some (MInt (int j))"
    by (simp add: metadata_vm_samples instance_vm_metadata)
  then show ?thesis
    unfolding of_instance_def by (auto simp: filter_empty_conv filter_id_conv)
qed

lemma of_instance_blocks:
  "of_instance i (concat (map (\<lambda>(j, v). vm_samples fl m n j v) (enumerate k vms))) =
     (if k \<le> i \<and> i < k + length vms then vm_samples fl m n i (vms ! (i - k)) else [])"
proof (induction vms arbitrary: k)
  case Nil
  show ?case by (auto simp: of_instance_def)
next
  case (Cons v vs)
  show ?case
  proof (cases "i = k")
    case True
    have "of_instance i (concat (map (\<lambda>(j, v). vm_samples fl m n j v) (enumerate (Suc k) vs)))
            = []"
      unfolding Cons using True by simp
    with True show ?thesis
      by (simp add: of_instance_append of_instance_vm_samples)
  next
    case False
    have "of_instance i (concat (map (\<lambda>(j, v). vm_samples fl m n j v) (enumerate (Suc k) vs)))
            = (if k \<le> i \<and> i < k + length (v # vs) then vm_samples fl m n i ((v # vs) ! (i - k))
               else [])"
      unfolding Cons using False by (auto simp: Suc_diff_le nth_Cons')
    with False show ?thesis
      by (simp add: of_instance_append of_instance_vm_samples)
  qed
qed

lemma of_instance_cluster_samples: "of_instance i (cluster_samples fl n st) = []"
  by (simp add: of_instance_def cluster_samples_def Sample_def Let_def)

lemma instance_block:
  assumes "vms \<noteq> []" and "GetTimeToBoot fl vms = Inr ss" and "i < length vms"
  shows "of_instance i ss = vm_samples fl (reference_time vms) (length vms) i (vms ! i)"
  unfolding GetTimeToBoot_Inr(2) [OF assms(1,2)]
  using assms(3) by (simp add: of_instance_append of_instance_blocks of_instance_cluster_samples)

lemma length_boot_blocks:
  "length (named ''Boot Time''
     (concat (map (\<lambda>(j, v). vm_samples fl m n j v) (enumerate k vms)))) = length vms"
  by (induction vms arbitrary: k) (simp_all add: named_Nil named_append named_boot_vm_samples)

lemma named_boot_cluster_samples: "named ''Boot Time'' (cluster_samples fl n st) = []"
  by (simp add: named_def cluster_samples_def Sample_def Let_def)

lemma named_port_blocks_off:
  "\<not> cluster_boot_test_port_listening fl \<Longrightarrow>
   named ''Port Listening Time''
     (concat (map (\<lambda>(j, v). vm_samples fl m n j v) (enumerate k vms))) = []"
  by (induction vms arbitrary: k) (simp_all add: named_Nil named_append named_port_vm_samples)

lemma named_port_cluster_samples: "named ''Port Listening Time'' (cluster_samples fl n st) = []"
  by (simp add: named_def cluster_samples_def Sample_def Let_def)

lemma named_create_return_vm_samples:
  "named ''Time to Create Async Return'' (vm_samples fl m n i v) =
     opt_sample ''Time to Create Async Return'' (create_return_time v) m
        (vm_metadata i n v (create_delay_sec (the (create_start_time v)) m))"
  by (simp add: vm_samples_def Let_def named_append named_opt_sample named_Cons sel_Sample named_Nil)

lemma named_ssh_external_vm_samples:
  "named ''Time to SSH - External'' (vm_samples fl m n i v) =
     (if BaseLinuxMixin v
      then opt_sample ''Time to SSH - External'' (ssh_external_time v) m
             (vm_metadata i n v (create_delay_sec (the (create_start_time v)) m))
      else [])"
  by (simp add: vm_samples_def Let_def named_append named_opt_sample named_Cons sel_Sample named_Nil)

lemma named_ssh_internal_vm_samples:
  "named ''Time to SSH - Internal'' (vm_samples fl m n i v) =
     (if BaseLinuxMixin v
      then opt_sample ''Time to SSH - Internal'' (ssh_internal_time v) m
             (vm_metadata i n v (create_delay_sec (the (create_start_time v)) m))
      else [])"
  by (simp add: vm_samples_def Let_def named_append named_opt_sample named_Cons sel_Sample named_Nil)

lemma GetTimeToBoot_fails_assert:
  assumes "vms \<noteq> []" and "list_all (\<lambda>v. create_start_time v \<noteq> None) vms"
    and "\<not> list_all (vm_asserts fl) vms"
  shows "GetTimeToBoot fl vms = Inl AssertionError"
proof -
  have "py_min (map create_start_time vms) = Inr (Some (reference_time vms))"
    using assms(1,2) by (rule py_min_all_set)
  moreover have "boot_loop fl (Some (reference_time vms)) (length vms) 0 vms init_vars
      = Inl AssertionError"
    using assms(3) by (rule boot_loop_fails)
  ultimately show ?thesis
    using assms(1) by (simp add: GetTimeToBoot_def)
qed

subsection \<open>Formatting\<close>

lemma str_nat_digit: "n < 10 \<Longrightarrow> str_nat n = [''0123456789'' ! n]"
  by (simp add: str_nat.simps)

lemma format_zero: "format_0_1f 0 = ''0.0''"
  by (simp add: format_0_1f_def round_half_even_def str_nat_digit)

subsection \<open>The order of the samples\<close>

lemma subseq_opt_sample: "subseq (map metric (opt_sample name t origin md)) [name]"
  by (cases t) (auto simp: sel_Sample)

lemma subseq_vm_samples: "subseq (map metric (vm_samples fl m n i v)) instance_metric_order"
proof -
  have order: "instance_metric_order =
      [''Time to Create Async Return''] @ [''Time to Running'']
      @ ([''Time to SSH - External''] @ [''Time to SSH - Internal''])
      @ [''Boot Time''] @ [''Port Listening Time''] @ [''RDP Port Listening Time'']"
    by (simp add: instance_metric_order_def)
  have ssh: "subseq (map metric
      (if BaseLinuxMixin v
       then opt_sample ''Time to SSH - External'' (ssh_external_time v) m md
            @ opt_sample ''Time to SSH - Internal'' (ssh_internal_time v) m md
       else []))
      ([''Time to SSH - External''] @ [''Time to SSH - Internal''])" for md
  proof (cases "BaseLinuxMixin v")
    case True
    then show ?thesis
      unfolding if_P [OF True] map_append
      by (intro list_emb_append_mono subseq_opt_sample)
  next
    case False
    then show ?thesis by simp
  qed
  have boot: "subseq (map metric [Sample ''Boot Time'' x ''seconds'' md]) [''Boot Time'']" for x md
    by (simp add: sel_Sample)
  have port: "subseq (map metric
      (if b then [Sample name x ''seconds'' md] else [])) [name]" for b name x md
    by (simp add: sel_Sample)
  show ?thesis
    unfolding order vm_samples_def Let_def map_append
    by (intro list_emb_append_mono subseq_opt_sample ssh boot port)
qed

lemma subseq_cluster_samples:
  "subseq (map metric (cluster_samples fl n st)) cluster_metric_order"
  by (simp add: cluster_samples_def cluster_metric_order_def Let_def sel_Sample)

lemma instance_cluster_samples:
  "s \<in> set (cluster_samples fl n st) \<Longrightarrow> map_of (metadata s) ''machine_instance'' = None"
  by (auto simp: cluster_samples_def Let_def sel_Sample split: if_splits)

lemma cluster_samples_not_Nil: "cluster_samples fl n st \<noteq> []"
  by (simp add: cluster_samples_def Let_def)

subsection \<open>Reboot and delete\<close>

lemma RunThreaded_Inr:
  "RunThreaded f xs = Inr ys \<longleftrightarrow> list_all2 (\<lambda>x y. f x = Inr y) xs ys"
proof (induction xs arbitrary: ys)
  case Nil
  show ?case by auto
next
  case (Cons x xs)
  show ?case
  proof (cases "f x")
    case (Inl e)
    then show ?thesis by (cases ys) auto
  next
    case fx: (Inr y)
    show ?thesis
    proof (cases "RunThreaded f xs")
      case (Inl e)
      then have "\<not> list_all2 (\<lambda>x y. f x = Inr y) xs zs" for zs
        using Cons [of zs] by simp
      with fx Inl show ?thesis by (cases ys) auto
    next
      case (Inr zs)
      then have "list_all2 (\<lambda>x y. f x = Inr y) xs ws \<longleftrightarrow> ws = zs" for ws
        using Cons [of ws] by auto
      with fx Inr show ?thesis by (cases ys) auto
    qed
  qed
qed

lemma max_loop_Some:
  "max_loop (Some m) (map Some xs) = Inr (Some (Max (insert m (set xs))))"
proof (induction xs arbitrary: m)
  case Nil
  show ?case by simp
next
  case (Cons x xs)
  have pick: "(if m < x then x else m) = max x m"
    by (simp add: max_def)
  have "Max (insert (max x m) (set xs)) = Max (insert m (insert x (set xs)))"
  proof (cases "set xs = {}")
    case True
    then show ?thesis by (simp add: max.commute)
  next
    case False
    then show ?thesis by (simp add: max.assoc max.commute)
  qed
  with Cons [of "max x m"] show ?case
    by (simp add: pick if_distrib [of Some, symmetric])
qed

lemma py_max_all_set:
  assumes "vms \<noteq> []" and "list_all (\<lambda>v. delete_end_time v \<noteq> None) vms"
  shows "py_max (map delete_end_time vms)
           = Inr (Some (Max ((\<lambda>v. the (delete_end_time v)) ` set vms)))"
proof -
  define es where "es = map (\<lambda>v. the (delete_end_time v)) vms"
  have eq: "map delete_end_time vms = map Some es"
    using assms(2) unfolding es_def by (induction vms) auto
  obtain e rest where es: "es = e # rest"
    using assms(1) unfolding es_def by (cases vms) auto
  have "py_max (map Some es) = Inr (Some (Max (set es)))"
    unfolding es py_max_def using max_loop_Some [of e rest] by simp
  then show ?thesis
    unfolding eq es_def by simp
qed

lemma delete_times_all_set:
  "list_all (\<lambda>v. delete_start_time v \<noteq> None \<and> delete_end_time v \<noteq> None) vms \<Longrightarrow>
   delete_times vms = Inr (map (\<lambda>v. the (delete_end_time v) - the (delete_start_time v)) vms)"
  by (induction vms) auto

lemma cluster_name_differs: "''Cluster '' @ operation @ '' Time'' \<noteq> operation @ '' Time''"
proof
  assume "''Cluster '' @ operation @ '' Time'' = operation @ '' Time''"
  then have "length (''Cluster '' @ operation @ '' Time'') = length (operation @ '' Time'')"
    by (rule arg_cong)
  then show False by simp
qed

lemma named_all: "(\<And>s. s \<in> set ss \<Longrightarrow> metric s = name) \<Longrightarrow> named name ss = ss"
  by (auto simp: named_def filter_id_conv)

lemma operation_samples_values:
  assumes "length operation_times = length vms"
  shows "map val (named (operation @ '' Time'')
            (GetVmOperationDataSamples operation_times cluster_time operation vms))
           = operation_times"
    and "map val (named (''Cluster '' @ operation @ '' Time'')
            (GetVmOperationDataSamples operation_times cluster_time operation vms))
           = [cluster_time]"
proof -
  let ?mds = "map (\<lambda>(i, v). [(''machine_instance'', MInt (int i)),
                            (''num_vms'', MInt (int (length vms))),
                            (''os_type'', MStr (OS_TYPE v))])
                (enumerate 0 vms)"
  let ?per = "map (\<lambda>(operation_time, md).
                          Sample (operation @ '' Time'') operation_time ''seconds'' md)
                       (zip operation_times ?mds)"
  have len: "length ?mds = length operation_times"
    using assms by simp
  have vals: "map val ?per = operation_times"
  proof -
    have "map val ?per = map fst (zip operation_times ?mds)"
      by (simp add: sel_Sample case_prod_unfold)
    also have "\<dots> = operation_times"
      using len by (simp only: map_fst_zip)
    finally show ?thesis .
  qed
  have all: "named (operation @ '' Time'') ?per = ?per"
    by (rule named_all) (auto simp: sel_Sample)
  have none: "named (''Cluster '' @ operation @ '' Time'') ?per = []"
    by (rule named_empty) (use cluster_name_differs [of operation] in \<open>auto simp: sel_Sample\<close>)
  show "map val (named (operation @ '' Time'')
            (GetVmOperationDataSamples operation_times cluster_time operation vms))
           = operation_times"
    unfolding GetVmOperationDataSamples_def Let_def named_append all
    using cluster_name_differs [of operation] vals
    by (simp add: named_Cons named_Nil sel_Sample)
  show "map val (named (''Cluster '' @ operation @ '' Time'')
            (GetVmOperationDataSamples operation_times cluster_time operation vms))
           = [cluster_time]"
    unfolding GetVmOperationDataSamples_def Let_def named_append none
    by (simp add: named_Cons named_Nil sel_Sample)
qed

section \<open>Properties of GetTimeToBoot\<close>

text \<open>
  C1. For a non-empty list of instances that all have \<open>create_start_time\<close> and \<open>bootable_time\<close>
  set with \<open>bootable_time \<ge> create_start_time\<close>, the samples that \<open>GetTimeToBoot\<close> returns hold
  exactly one "Cluster Boot Time" sample, and its value is the maximum over the instances of
  \<open>bootable_time\<close> minus the least \<open>create_start_time\<close> of the list; the value is the difference
  itself, nothing is rounded. The call returns whenever the asserts of the loop hold
  for every instance.
\<close>

theorem cluster_boot_time_is_max:
  assumes "vms \<noteq> []"
    and "\<forall>v\<in>set vms. \<exists>c b. create_start_time v = Some c \<and> bootable_time v = Some b \<and> c \<le> b"
  shows "(list_all (vm_asserts fl) vms \<longrightarrow> (\<exists>ss. GetTimeToBoot fl vms = Inr ss))
       \<and> (\<forall>ss. GetTimeToBoot fl vms = Inr ss \<longrightarrow>
            map val (named ''Cluster Boot Time'' ss)
              = [Max ((\<lambda>v. the (bootable_time v) - reference_time vms) ` set vms)])"
proof (intro conjI impI allI)
  assume "list_all (vm_asserts fl) vms"
  then show "\<exists>ss. GetTimeToBoot fl vms = Inr ss"
    using GetTimeToBoot_returns_iff [OF assms(1)] by blast
next
  fix ss
  assume ret: "GetTimeToBoot fl vms = Inr ss"
  let ?m = "reference_time vms"
  let ?st = "after_vms fl ?m (length vms) 0 vms init_vars"
  let ?B = "(\<lambda>v. the (bootable_time v) - ?m) ` set vms"
  note ok = GetTimeToBoot_Inr(1) [OF assms(1) ret]
  note ss = GetTimeToBoot_Inr(2) [OF assms(1) ret]
  have "''Cluster Boot Time'' \<notin> set instance_metric_order"
    by (simp add: instance_metric_order_def)
  then have "map val (named ''Cluster Boot Time'' ss) = [max_boot_time_sec ?st]"
    unfolding ss by (simp add: named_append named_instance_samples_empty named_cluster_boot)
  also have "max_boot_time_sec ?st = Max (insert 0 ?B)"
    by (simp add: max_boot_after_vms init_vars_def)
  also have "Max (insert 0 ?B) = Max ?B"
  proof (rule Max_insert_lower)
    show "finite ?B" by simp
    show "?B \<noteq> {}" using assms(1) by simp
    fix x assume "x \<in> ?B"
    then show "0 \<le> x" using boot_time_nonneg [OF ok] by auto
  qed
  finally show "map val (named ''Cluster Boot Time'' ss) = [Max ?B]" .
qed

theorem cluster_boot_time_is_max_witness:
  "three_vms \<noteq> [] \<and> list_all (vm_asserts no_flags) three_vms
   \<and> (\<exists>ss. GetTimeToBoot no_flags three_vms = Inr ss
         \<and> map val (named ''Cluster Boot Time'' ss) = [15])"
proof -
  have ne: "three_vms \<noteq> []"
    by (simp add: three_vms_def)
  have pre: "\<forall>v\<in>set three_vms.
      \<exists>c b. create_start_time v = Some c \<and> bootable_time v = Some b \<and> c \<le> b"
    by (simp add: three_vms_def plain_vm_def)
  have ok: "list_all (vm_asserts no_flags) three_vms"
    by (simp add: three_vms_def plain_vm_def no_flags_def vm_asserts_def required_after_def)
  have ref: "reference_time three_vms = 100"
    by (simp add: reference_time_def three_vms_def plain_vm_def)
  have mx: "Max ((\<lambda>v. the (bootable_time v) - reference_time three_vms) ` set three_vms) = 15"
    unfolding ref by (simp add: three_vms_def plain_vm_def)
  from cluster_boot_time_is_max [OF ne pre, of no_flags] ok mx ne show ?thesis
    by auto
qed

text \<open>
  C3. For a non-empty list of instances that satisfy the asserts of the loop, \<open>GetTimeToBoot\<close>
  returns samples with exactly one "Boot Time" sample for each instance, as many "Boot Time"
  samples as instances, and exactly one "Cluster Boot Time" sample. For the empty list it
  returns the empty list and raises nothing.
\<close>

theorem boot_time_sample_counts:
  "GetTimeToBoot fl [] = Inr []
   \<and> (vms \<noteq> [] \<and> list_all (vm_asserts fl) vms \<longrightarrow>
       (\<exists>ss. GetTimeToBoot fl vms = Inr ss
          \<and> (\<forall>i<length vms. length (named ''Boot Time'' (of_instance i ss)) = 1)
          \<and> length (named ''Boot Time'' ss) = length vms
          \<and> length (named ''Cluster Boot Time'' ss) = 1))"
proof (intro conjI impI)
  show "GetTimeToBoot fl [] = Inr []"
    by (simp add: GetTimeToBoot_def)
next
  assume pre: "vms \<noteq> [] \<and> list_all (vm_asserts fl) vms"
  then have ne: "vms \<noteq> []" and ok: "list_all (vm_asserts fl) vms" by simp_all
  obtain ss where ret: "GetTimeToBoot fl vms = Inr ss"
    using GetTimeToBoot_returns_iff [OF ne] ok by blast
  note ss = GetTimeToBoot_Inr(2) [OF ne ret]
  have one: "\<forall>i<length vms. length (named ''Boot Time'' (of_instance i ss)) = 1"
    by (simp add: instance_block [OF ne ret] named_boot_vm_samples)
  have all: "length (named ''Boot Time'' ss) = length vms"
    unfolding ss by (simp add: named_append length_boot_blocks named_boot_cluster_samples)
  have "''Cluster Boot Time'' \<notin> set instance_metric_order"
    by (simp add: instance_metric_order_def)
  then have "named ''Cluster Boot Time'' ss
      = named ''Cluster Boot Time''
          (cluster_samples fl (length vms)
             (after_vms fl (reference_time vms) (length vms) 0 vms init_vars))"
    unfolding ss by (simp add: named_append named_instance_samples_empty)
  then have "length (map val (named ''Cluster Boot Time'' ss)) = 1"
    by (simp only: named_cluster_boot) simp
  then have cl: "length (named ''Cluster Boot Time'' ss) = 1" by simp
  from ret one all cl
  show "\<exists>ss. GetTimeToBoot fl vms = Inr ss
          \<and> (\<forall>i<length vms. length (named ''Boot Time'' (of_instance i ss)) = 1)
          \<and> length (named ''Boot Time'' ss) = length vms
          \<and> length (named ''Cluster Boot Time'' ss) = 1"
    by blast
qed

theorem boot_time_sample_counts_witness:
  "three_vms \<noteq> [] \<and> list_all (vm_asserts no_flags) three_vms
   \<and> (\<exists>ss. GetTimeToBoot no_flags three_vms = Inr ss
          \<and> (\<forall>i<3. length (named ''Boot Time'' (of_instance i ss)) = 1)
          \<and> length (named ''Boot Time'' ss) = 3
          \<and> length (named ''Cluster Boot Time'' ss) = 1)"
proof -
  have ne: "three_vms \<noteq> []"
    by (simp add: three_vms_def)
  have ok: "list_all (vm_asserts no_flags) three_vms"
    by (simp add: three_vms_def plain_vm_def no_flags_def vm_asserts_def required_after_def)
  have len: "length three_vms = 3"
    by (simp add: three_vms_def)
  from boot_time_sample_counts [of no_flags three_vms] ne ok show ?thesis
    unfolding len by blast
qed

text \<open>
  C4. "Time to Running" is measured from the instance's own \<open>create_start_time\<close>, not from the
  reference time of the cluster: two instances with different create start times and the same
  difference \<open>is_running_time - create_start_time\<close> get the same "Time to Running" value, each
  in the one sample it has when its \<open>is_running_time\<close> is a true value, although their create
  delays differ.
\<close>

theorem time_to_running_uses_own_start:
  assumes "GetTimeToBoot fl vms = Inr ss"
    and "i < length vms" and "j < length vms"
    and "create_start_time (vms ! i) = Some ci" and "create_start_time (vms ! j) = Some cj"
    and "is_running_time (vms ! i) = Some ri" and "is_running_time (vms ! j) = Some rj"
    and "ci \<noteq> cj" and "ri - ci = rj - cj"
  shows "map val (named ''Time to Running'' (of_instance i ss)) = (if ri = 0 then [] else [ri - ci])
       \<and> map val (named ''Time to Running'' (of_instance j ss)) = (if rj = 0 then [] else [ri - ci])
       \<and> create_delay_sec ci (reference_time vms) \<noteq> create_delay_sec cj (reference_time vms)"
proof -
  have ne: "vms \<noteq> []" using assms(2) by auto
  have i: "map val (named ''Time to Running'' (of_instance i ss)) = (if ri = 0 then [] else [ri - ci])"
    by (simp add: instance_block [OF ne assms(1,2)] named_running_vm_samples assms(4,6) sel_Sample)
  have j: "map val (named ''Time to Running'' (of_instance j ss)) = (if rj = 0 then [] else [rj - cj])"
    by (simp add: instance_block [OF ne assms(1,3)] named_running_vm_samples assms(5,7) sel_Sample)
  have d: "create_delay_sec ci (reference_time vms) \<noteq> create_delay_sec cj (reference_time vms)"
    using assms(8) by (simp add: create_delay_sec_def)
  from i j d assms(9) show ?thesis by simp
qed

theorem time_to_running_uses_own_start_witness:
  "\<exists>ss. GetTimeToBoot no_flags two_running_vms = Inr ss
      \<and> map val (named ''Time to Running'' (of_instance 0 ss)) = [4]
      \<and> map val (named ''Time to Running'' (of_instance 1 ss)) = [4]
      \<and> create_delay_sec 100 (reference_time two_running_vms)
          \<noteq> create_delay_sec 103 (reference_time two_running_vms)"
proof -
  have ne: "two_running_vms \<noteq> []"
    by (simp add: two_running_vms_def)
  have "list_all (vm_asserts no_flags) two_running_vms"
    by (simp add: two_running_vms_def running_vm_def plain_vm_def no_flags_def vm_asserts_def
        required_after_def)
  then obtain ss where ret: "GetTimeToBoot no_flags two_running_vms = Inr ss"
    using GetTimeToBoot_returns_iff [OF ne] by blast
  have "map val (named ''Time to Running'' (of_instance 0 ss)) = (if (104::real) = 0 then [] else [104 - 100])
       \<and> map val (named ''Time to Running'' (of_instance 1 ss)) = (if (107::real) = 0 then [] else [104 - 100])
       \<and> create_delay_sec 100 (reference_time two_running_vms)
           \<noteq> create_delay_sec 103 (reference_time two_running_vms)"
    by (rule time_to_running_uses_own_start [OF ret])
       (simp_all add: two_running_vms_def running_vm_def plain_vm_def)
  with ret show ?thesis by simp
qed

text \<open>
  C5. With the port listening flag set, a call on instances that pass the asserts returns, for
  each instance, one "Port Listening Time" sample whose value is \<open>port_listening_time\<close> minus
  the reference time. With the flag set, an instance whose \<open>port_listening_time\<close> is absent or
  less than its \<open>create_start_time\<close> makes the whole call raise, so that no samples are
  returned. With the flag not set, a returning call has no "Port Listening Time" sample.
\<close>

theorem port_listening_time_samples:
  "(cluster_boot_test_port_listening fl \<and> vms \<noteq> [] \<and> list_all (vm_asserts fl) vms \<longrightarrow>
      (\<exists>ss. GetTimeToBoot fl vms = Inr ss
         \<and> (\<forall>i<length vms. \<exists>p. port_listening_time (vms ! i) = Some p
               \<and> map val (named ''Port Listening Time'' (of_instance i ss))
                   = [p - reference_time vms])))
   \<and> (cluster_boot_test_port_listening fl \<and> v \<in> set vms
        \<and> (port_listening_time v = None
            \<or> (\<exists>p c. port_listening_time v = Some p \<and> create_start_time v = Some c \<and> p < c)) \<longrightarrow>
      (\<exists>e. GetTimeToBoot fl vms = Inl e))
   \<and> (\<not> cluster_boot_test_port_listening fl \<and> GetTimeToBoot fl vms = Inr ss \<longrightarrow>
      named ''Port Listening Time'' ss = [])"
proof (intro conjI impI)
  assume a: "cluster_boot_test_port_listening fl \<and> vms \<noteq> [] \<and> list_all (vm_asserts fl) vms"
  then have flag: "cluster_boot_test_port_listening fl" and ne: "vms \<noteq> []"
    and ok: "list_all (vm_asserts fl) vms" by simp_all
  obtain ss' where ret: "GetTimeToBoot fl vms = Inr ss'"
    using GetTimeToBoot_returns_iff [OF ne] ok by blast
  have "\<exists>p. port_listening_time (vms ! i) = Some p
          \<and> map val (named ''Port Listening Time'' (of_instance i ss')) = [p - reference_time vms]"
    if i: "i < length vms" for i
  proof -
    have "vm_asserts fl (vms ! i)"
      using ok i by (simp add: list_all_length)
    then obtain p where p: "port_listening_time (vms ! i) = Some p"
      using flag by (auto simp: vm_asserts_iff)
    have "map val (named ''Port Listening Time'' (of_instance i ss')) = [p - reference_time vms]"
      by (simp add: instance_block [OF ne ret i] named_port_vm_samples flag p sel_Sample)
    with p show ?thesis by simp
  qed
  with ret show "\<exists>ss. GetTimeToBoot fl vms = Inr ss
         \<and> (\<forall>i<length vms. \<exists>p. port_listening_time (vms ! i) = Some p
               \<and> map val (named ''Port Listening Time'' (of_instance i ss))
                   = [p - reference_time vms])"
    by blast
next
  assume b: "cluster_boot_test_port_listening fl \<and> v \<in> set vms
        \<and> (port_listening_time v = None
            \<or> (\<exists>p c. port_listening_time v = Some p \<and> create_start_time v = Some c \<and> p < c))"
  then have "\<not> vm_asserts fl v"
    by (auto simp: vm_asserts_iff)
  with b have "\<not> list_all (vm_asserts fl) vms"
    by (auto simp: list_all_iff)
  moreover from b have "vms \<noteq> []" by auto
  ultimately show "\<exists>e. GetTimeToBoot fl vms = Inl e"
    by (rule GetTimeToBoot_fails [rotated])
next
  assume c: "\<not> cluster_boot_test_port_listening fl \<and> GetTimeToBoot fl vms = Inr ss"
  show "named ''Port Listening Time'' ss = []"
  proof (cases "vms = []")
    case True
    with c show ?thesis by (simp add: GetTimeToBoot_def named_Nil)
  next
    case False
    from c have ret: "GetTimeToBoot fl vms = Inr ss" by simp
    show ?thesis
      unfolding GetTimeToBoot_Inr(2) [OF False ret]
      using c by (simp add: named_append named_port_blocks_off named_port_cluster_samples)
  qed
qed

theorem port_listening_time_samples_witness:
  "(\<exists>ss. GetTimeToBoot port_flag two_port_vms = Inr ss
       \<and> map val (named ''Port Listening Time'' (of_instance 0 ss)) = [8]
       \<and> map val (named ''Port Listening Time'' (of_instance 1 ss)) = [12])
   \<and> (\<exists>e. GetTimeToBoot port_flag unset_port_vms = Inl e)
   \<and> (\<exists>ss. GetTimeToBoot no_flags two_port_vms = Inr ss \<and> named ''Port Listening Time'' ss = [])"
proof (intro conjI)
  have ne: "two_port_vms \<noteq> []"
    by (simp add: two_port_vms_def)
  have flag: "cluster_boot_test_port_listening port_flag"
    by (simp add: port_flag_def)
  have ok: "list_all (vm_asserts port_flag) two_port_vms"
    by (simp add: two_port_vms_def port_vm_def plain_vm_def port_flag_def vm_asserts_def
        required_after_def)
  have ref: "reference_time two_port_vms = 100"
    by (simp add: reference_time_def two_port_vms_def port_vm_def plain_vm_def)
  from port_listening_time_samples [of port_flag two_port_vms] flag ne ok
  obtain ss where ret: "GetTimeToBoot port_flag two_port_vms = Inr ss"
    and each: "\<forall>i<length two_port_vms. \<exists>p. port_listening_time (two_port_vms ! i) = Some p
               \<and> map val (named ''Port Listening Time'' (of_instance i ss))
                   = [p - reference_time two_port_vms]"
    by blast
  from each [rule_format, of 0] each [rule_format, of 1]
  have "map val (named ''Port Listening Time'' (of_instance 0 ss)) = [8]
       \<and> map val (named ''Port Listening Time'' (of_instance 1 ss)) = [12]"
    unfolding ref by (simp add: two_port_vms_def port_vm_def plain_vm_def)
  with ret show "\<exists>ss. GetTimeToBoot port_flag two_port_vms = Inr ss
       \<and> map val (named ''Port Listening Time'' (of_instance 0 ss)) = [8]
       \<and> map val (named ''Port Listening Time'' (of_instance 1 ss)) = [12]"
    by auto
next
  have "cluster_boot_test_port_listening port_flag \<and> plain_vm 101 113 \<in> set unset_port_vms
        \<and> (port_listening_time (plain_vm 101 113) = None
            \<or> (\<exists>p c. port_listening_time (plain_vm 101 113) = Some p
                  \<and> create_start_time (plain_vm 101 113) = Some c \<and> p < c))"
    by (simp add: port_flag_def unset_port_vms_def plain_vm_def)
  with port_listening_time_samples [of port_flag unset_port_vms "plain_vm 101 113"]
  show "\<exists>e. GetTimeToBoot port_flag unset_port_vms = Inl e"
    by blast
next
  have ne: "two_port_vms \<noteq> []"
    by (simp add: two_port_vms_def)
  have "list_all (vm_asserts no_flags) two_port_vms"
    by (simp add: two_port_vms_def port_vm_def plain_vm_def no_flags_def vm_asserts_def
        required_after_def)
  then obtain ss where ret: "GetTimeToBoot no_flags two_port_vms = Inr ss"
    using GetTimeToBoot_returns_iff [OF ne] by blast
  have "\<not> cluster_boot_test_port_listening no_flags"
    by (simp add: no_flags_def)
  with port_listening_time_samples [of no_flags two_port_vms _ ss] ret
  show "\<exists>ss. GetTimeToBoot no_flags two_port_vms = Inr ss \<and> named ''Port Listening Time'' ss = []"
    by blast
qed

text \<open>
  C10. \<open>GetTimeToBoot\<close> tests the truth value of a timestamp, not whether it is set. An optional
  timestamp (\<open>create_return_time\<close>, \<open>is_running_time\<close>, \<open>ssh_external_time\<close>,
  \<open>ssh_internal_time\<close>) that is set to \<open>0\<close> is treated as absent: the call returns and has no
  sample of that metric for the instance. A required timestamp (\<open>create_start_time\<close>,
  \<open>bootable_time\<close>) that is set to \<open>0\<close> makes the call raise, with \<open>AssertionError\<close> when every
  instance has its create start time set.
\<close>

theorem presence_is_decided_by_truth_value:
  "(GetTimeToBoot fl vms = Inr ss \<and> i < length vms \<longrightarrow>
      (create_return_time (vms ! i) = Some 0 \<longrightarrow>
         named ''Time to Create Async Return'' (of_instance i ss) = [])
    \<and> (is_running_time (vms ! i) = Some 0 \<longrightarrow>
         named ''Time to Running'' (of_instance i ss) = [])
    \<and> (ssh_external_time (vms ! i) = Some 0 \<longrightarrow>
         named ''Time to SSH - External'' (of_instance i ss) = [])
    \<and> (ssh_internal_time (vms ! i) = Some 0 \<longrightarrow>
         named ''Time to SSH - Internal'' (of_instance i ss) = []))
   \<and> (v \<in> set vms \<and> (create_start_time v = Some 0 \<or> bootable_time v = Some 0) \<longrightarrow>
        (\<exists>e. GetTimeToBoot fl vms = Inl e))
   \<and> (v \<in> set vms \<and> (create_start_time v = Some 0 \<or> bootable_time v = Some 0)
        \<and> list_all (\<lambda>u. create_start_time u \<noteq> None) vms \<longrightarrow>
        GetTimeToBoot fl vms = Inl AssertionError)"
proof (intro conjI impI)
  assume a: "GetTimeToBoot fl vms = Inr ss \<and> i < length vms"
  then have ret: "GetTimeToBoot fl vms = Inr ss" and i: "i < length vms" by simp_all
  have ne: "vms \<noteq> []" using i by auto
  note blk = instance_block [OF ne ret i]
  { assume "create_return_time (vms ! i) = Some 0"
    then show "named ''Time to Create Async Return'' (of_instance i ss) = []"
      by (simp add: blk named_create_return_vm_samples) }
  { assume "is_running_time (vms ! i) = Some 0"
    then show "named ''Time to Running'' (of_instance i ss) = []"
      by (simp add: blk named_running_vm_samples) }
  { assume "ssh_external_time (vms ! i) = Some 0"
    then show "named ''Time to SSH - External'' (of_instance i ss) = []"
      by (simp add: blk named_ssh_external_vm_samples) }
  { assume "ssh_internal_time (vms ! i) = Some 0"
    then show "named ''Time to SSH - Internal'' (of_instance i ss) = []"
      by (simp add: blk named_ssh_internal_vm_samples) }
next
  assume b: "v \<in> set vms \<and> (create_start_time v = Some 0 \<or> bootable_time v = Some 0)"
  then have "\<not> vm_asserts fl v"
    by (auto simp: vm_asserts_iff)
  with b have "\<not> list_all (vm_asserts fl) vms"
    by (auto simp: list_all_iff)
  moreover from b have "vms \<noteq> []" by auto
  ultimately show "\<exists>e. GetTimeToBoot fl vms = Inl e"
    by (rule GetTimeToBoot_fails [rotated])
next
  assume c: "v \<in> set vms \<and> (create_start_time v = Some 0 \<or> bootable_time v = Some 0)
        \<and> list_all (\<lambda>u. create_start_time u \<noteq> None) vms"
  then have "\<not> vm_asserts fl v"
    by (auto simp: vm_asserts_iff)
  with c have bad: "\<not> list_all (vm_asserts fl) vms"
    by (auto simp: list_all_iff)
  from c have ne: "vms \<noteq> []" by auto
  from c have "list_all (\<lambda>u. create_start_time u \<noteq> None) vms" by simp
  with ne show "GetTimeToBoot fl vms = Inl AssertionError"
    using bad by (rule GetTimeToBoot_fails_assert)
qed

theorem presence_is_decided_by_truth_value_witness:
  "(\<exists>ss. GetTimeToBoot no_flags [zero_optional_vm] = Inr ss
       \<and> named ''Time to Create Async Return'' (of_instance 0 ss) = []
       \<and> named ''Time to Running'' (of_instance 0 ss) = []
       \<and> named ''Time to SSH - External'' (of_instance 0 ss) = []
       \<and> named ''Time to SSH - Internal'' (of_instance 0 ss) = [])
   \<and> create_start_time (plain_vm 0 110) = Some 0
   \<and> GetTimeToBoot no_flags [plain_vm 0 110] = Inl AssertionError"
proof (intro conjI)
  have "list_all (vm_asserts no_flags) [zero_optional_vm]"
    by (simp add: zero_optional_vm_def plain_vm_def no_flags_def vm_asserts_def required_after_def)
  then obtain ss where ret: "GetTimeToBoot no_flags [zero_optional_vm] = Inr ss"
    using GetTimeToBoot_returns_iff [of "[zero_optional_vm]" no_flags] by auto
  have z: "create_return_time ([zero_optional_vm] ! 0) = Some 0"
      "is_running_time ([zero_optional_vm] ! 0) = Some 0"
      "ssh_external_time ([zero_optional_vm] ! 0) = Some 0"
      "ssh_internal_time ([zero_optional_vm] ! 0) = Some 0"
    by (simp_all add: zero_optional_vm_def)
  from presence_is_decided_by_truth_value [of no_flags "[zero_optional_vm]" ss 0] ret z
  have "named ''Time to Create Async Return'' (of_instance 0 ss) = []
       \<and> named ''Time to Running'' (of_instance 0 ss) = []
       \<and> named ''Time to SSH - External'' (of_instance 0 ss) = []
       \<and> named ''Time to SSH - Internal'' (of_instance 0 ss) = []"
    by simp
  with ret show "\<exists>ss. GetTimeToBoot no_flags [zero_optional_vm] = Inr ss
       \<and> named ''Time to Create Async Return'' (of_instance 0 ss) = []
       \<and> named ''Time to Running'' (of_instance 0 ss) = []
       \<and> named ''Time to SSH - External'' (of_instance 0 ss) = []
       \<and> named ''Time to SSH - Internal'' (of_instance 0 ss) = []"
    by auto
next
  show "create_start_time (plain_vm 0 110) = Some 0"
    by (simp add: plain_vm_def)
next
  have "plain_vm 0 110 \<in> set [plain_vm 0 110]
        \<and> (create_start_time (plain_vm 0 110) = Some 0 \<or> bootable_time (plain_vm 0 110) = Some 0)
        \<and> list_all (\<lambda>u. create_start_time u \<noteq> None) [plain_vm 0 110]"
    by (simp add: plain_vm_def)
  with presence_is_decided_by_truth_value [of no_flags "[plain_vm 0 110]" _ _ "plain_vm 0 110"]
  show "GetTimeToBoot no_flags [plain_vm 0 110] = Inl AssertionError"
    by blast
qed

text \<open>
  C8. For a non-empty list of instances whose create start times are set, the reference
  time that \<open>GetTimeToBoot\<close> computes with \<open>min\<close> is the least \<open>create_start_time\<close> of the list.
  So the create delay of every instance is at least \<open>0\<close>, some instance has the create delay
  \<open>0\<close>, and in a returning call every sample of an instance carries the create delay of that
  instance, taken from this reference time, rendered with one decimal.
\<close>

theorem reference_time_is_least_create_start:
  assumes "vms \<noteq> []" and "\<forall>v\<in>set vms. create_start_time v \<noteq> None"
  shows "py_min (map create_start_time vms) = Inr (Some (reference_time vms))
       \<and> (\<forall>v\<in>set vms. reference_time vms \<le> the (create_start_time v))
       \<and> (\<forall>v\<in>set vms. 0 \<le> create_delay_sec (the (create_start_time v)) (reference_time vms))
       \<and> (\<exists>v\<in>set vms. create_delay_sec (the (create_start_time v)) (reference_time vms) = 0)
       \<and> (\<forall>ss i. GetTimeToBoot fl vms = Inr ss \<and> i < length vms \<longrightarrow>
            (\<forall>s\<in>set (of_instance i ss).
               map_of (metadata s) ''create_delay_sec''
                 = Some (MStr (format_0_1f
                     (create_delay_sec (the (create_start_time (vms ! i))) (reference_time vms))))))"
proof (intro conjI allI impI ballI)
  have "list_all (\<lambda>v. create_start_time v \<noteq> None) vms"
    using assms(2) by (simp add: list_all_iff)
  with assms(1) show "py_min (map create_start_time vms) = Inr (Some (reference_time vms))"
    by (rule py_min_all_set)
next
  fix v assume "v \<in> set vms"
  then show "reference_time vms \<le> the (create_start_time v)"
    by (rule reference_time_le)
next
  fix v assume "v \<in> set vms"
  then have "reference_time vms \<le> the (create_start_time v)"
    by (rule reference_time_le)
  then show "0 \<le> create_delay_sec (the (create_start_time v)) (reference_time vms)"
    by (simp add: create_delay_sec_def)
next
  obtain v where "v \<in> set vms" and "the (create_start_time v) = reference_time vms"
    using reference_time_in [OF assms(1)] by blast
  then show "\<exists>v\<in>set vms. create_delay_sec (the (create_start_time v)) (reference_time vms) = 0"
    by (auto simp: create_delay_sec_def)
next
  fix ss i s
  assume a: "GetTimeToBoot fl vms = Inr ss \<and> i < length vms" and s: "s \<in> set (of_instance i ss)"
  from a have ret: "GetTimeToBoot fl vms = Inr ss" and i: "i < length vms" by simp_all
  from s have "s \<in> set (vm_samples fl (reference_time vms) (length vms) i (vms ! i))"
    unfolding instance_block [OF assms(1) ret i] .
  then have "metadata s = vm_metadata i (length vms) (vms ! i)
      (create_delay_sec (the (create_start_time (vms ! i))) (reference_time vms))"
    by (rule metadata_vm_samples)
  then show "map_of (metadata s) ''create_delay_sec''
                 = Some (MStr (format_0_1f
                     (create_delay_sec (the (create_start_time (vms ! i))) (reference_time vms))))"
    by (simp add: vm_metadata_def)
qed

theorem reference_time_is_least_create_start_witness:
  "py_min (map create_start_time three_vms) = Inr (Some 100)
   \<and> map (\<lambda>v. create_delay_sec (the (create_start_time v)) 100) three_vms = [0, 1, 3]"
proof -
  have ne: "three_vms \<noteq> []"
    by (simp add: three_vms_def)
  have set: "\<forall>v\<in>set three_vms. create_start_time v \<noteq> None"
    by (simp add: three_vms_def plain_vm_def)
  have ref: "reference_time three_vms = 100"
    by (simp add: reference_time_def three_vms_def plain_vm_def)
  have "map (\<lambda>v. create_delay_sec (the (create_start_time v)) 100) three_vms = [0, 1, 3]"
    by (simp add: three_vms_def plain_vm_def create_delay_sec_def)
  with reference_time_is_least_create_start [OF ne set, of no_flags] show ?thesis
    unfolding ref by simp
qed

text \<open>
  C2, as stated, does not hold: the only timestamps that \<open>GetTimeToBoot\<close> compares with
  \<open>create_start_time\<close> are \<open>bootable_time\<close> and the two flag-gated port times. A VM that was
  created at 100 and whose \<open>is_running_time\<close> is 50 is accepted; the call returns a
  "Time to Running" of \<open>-50\<close>.
\<close>

theorem early_running_time_counterexample:
  "is_running_time early_running_vm = Some 50
   \<and> create_start_time early_running_vm = Some 100
   \<and> GetTimeToBoot no_flags [early_running_vm] =
       Inr [Sample ''Time to Running'' (- 50) ''seconds''
              [(''machine_instance'', MInt 0), (''num_vms'', MInt 1),
               (''os_type'', MStr ''ubuntu2004''), (''create_delay_sec'', MStr ''0.0'')],
            Sample ''Boot Time'' 10 ''seconds''
              [(''machine_instance'', MInt 0), (''num_vms'', MInt 1),
               (''os_type'', MStr ''ubuntu2004''), (''create_delay_sec'', MStr ''0.0'')],
            Sample ''Cluster Boot Time'' 10 ''seconds''
              [(''num_vms'', MInt 1), (''os_type'', MStr ''ubuntu2004''),
               (''max_create_delay_sec'', MStr ''0.0'')]]"
  by (simp add: early_running_vm_def running_vm_def plain_vm_def no_flags_def GetTimeToBoot_def
      py_min_def loop_body_def boot_block_def port_block_def rdp_block_def init_vars_def
      cluster_samples_def vm_metadata_def create_delay_sec_def format_zero Let_def)

text \<open>
  C2, amended. On a non-empty list \<open>GetTimeToBoot\<close> raises exactly when some instance fails an
  assert of the loop: \<open>create_start_time\<close> or \<open>bootable_time\<close> is \<open>None\<close> or \<open>0\<close>,
  \<open>bootable_time < create_start_time\<close>, or a port timestamp whose flag is set is \<open>None\<close>, \<open>0\<close> or
  less than \<open>create_start_time\<close>. A call that raises returns no samples at all, and a call
  that returns has the "Boot Time" sample of every instance: no instance is skipped.
\<close>

theorem raises_iff_an_assert_fails:
  assumes "vms \<noteq> []"
  shows "((\<exists>e. GetTimeToBoot fl vms = Inl e) \<longleftrightarrow> (\<exists>v\<in>set vms. \<not> vm_asserts fl v))
       \<and> (\<forall>ss. GetTimeToBoot fl vms = Inr ss \<longrightarrow>
            (\<forall>i<length vms. length (named ''Boot Time'' (of_instance i ss)) = 1))"
proof (intro conjI allI impI)
  show "(\<exists>e. GetTimeToBoot fl vms = Inl e) \<longleftrightarrow> (\<exists>v\<in>set vms. \<not> vm_asserts fl v)"
  proof
    assume "\<exists>e. GetTimeToBoot fl vms = Inl e"
    then have "\<not> (\<exists>ss. GetTimeToBoot fl vms = Inr ss)" by auto
    then have "\<not> list_all (vm_asserts fl) vms"
      using GetTimeToBoot_returns_iff [OF assms] by simp
    then show "\<exists>v\<in>set vms. \<not> vm_asserts fl v"
      by (simp add: list_all_iff)
  next
    assume "\<exists>v\<in>set vms. \<not> vm_asserts fl v"
    then have "\<not> list_all (vm_asserts fl) vms"
      by (simp add: list_all_iff)
    with assms show "\<exists>e. GetTimeToBoot fl vms = Inl e"
      by (rule GetTimeToBoot_fails)
  qed
next
  fix ss i
  assume ret: "GetTimeToBoot fl vms = Inr ss" and i: "i < length vms"
  show "length (named ''Boot Time'' (of_instance i ss)) = 1"
    by (simp add: instance_block [OF assms ret i] named_boot_vm_samples)
qed

theorem raises_iff_an_assert_fails_witness:
  "unset_port_vms \<noteq> []
   \<and> (\<exists>e. GetTimeToBoot port_flag unset_port_vms = Inl e)
   \<and> (\<exists>ss. GetTimeToBoot no_flags unset_port_vms = Inr ss
         \<and> length (named ''Boot Time'' (of_instance 0 ss)) = 1
         \<and> length (named ''Boot Time'' (of_instance 1 ss)) = 1)"
proof -
  have ne: "unset_port_vms \<noteq> []"
    by (simp add: unset_port_vms_def)
  have len: "length unset_port_vms = 2"
    by (simp add: unset_port_vms_def)
  have bad: "\<exists>v\<in>set unset_port_vms. \<not> vm_asserts port_flag v"
    by (simp add: unset_port_vms_def port_vm_def plain_vm_def port_flag_def vm_asserts_def
        required_after_def)
  have good: "\<not> (\<exists>v\<in>set unset_port_vms. \<not> vm_asserts no_flags v)"
    by (simp add: unset_port_vms_def port_vm_def plain_vm_def no_flags_def vm_asserts_def
        required_after_def)
  from raises_iff_an_assert_fails [OF ne, of port_flag] bad
  have raises: "\<exists>e. GetTimeToBoot port_flag unset_port_vms = Inl e"
    by simp
  from raises_iff_an_assert_fails [OF ne, of no_flags] good
  have "\<not> (\<exists>e. GetTimeToBoot no_flags unset_port_vms = Inl e)"
    by simp
  then obtain ss where ret: "GetTimeToBoot no_flags unset_port_vms = Inr ss"
    by (cases "GetTimeToBoot no_flags unset_port_vms") auto
  from raises_iff_an_assert_fails [OF ne, of no_flags] ret
  have "\<forall>i<2. length (named ''Boot Time'' (of_instance i ss)) = 1"
    unfolding len by simp
  then have "length (named ''Boot Time'' (of_instance 0 ss)) = 1
      \<and> length (named ''Boot Time'' (of_instance 1 ss)) = 1"
    by simp
  with ne raises ret show ?thesis by auto
qed

text \<open>
  C9. The samples of a returning call on a non-empty list come in a fixed order: first one
  block of samples for each instance, the blocks in the order of the input list; within the
  block of an instance the metrics in the order Time to Create Async Return, Time to Running,
  Time to SSH - External, Time to SSH - Internal, Boot Time, Port Listening Time, RDP Port
  Listening Time, leaving out those that are not emitted; and after all blocks the
  cluster-wide samples.
\<close>

theorem samples_come_in_a_fixed_order:
  assumes "vms \<noteq> []" and "GetTimeToBoot fl vms = Inr ss"
  shows "\<exists>blocks cluster.
           ss = concat blocks @ cluster \<and> length blocks = length vms
         \<and> (\<forall>i<length vms.
              (\<forall>s\<in>set (blocks ! i).
                 map_of (metadata s) ''machine_instance'' = Some (MInt (int i)))
              \<and> subseq (map metric (blocks ! i)) instance_metric_order)
         \<and> cluster \<noteq> []
         \<and> (\<forall>s\<in>set cluster. map_of (metadata s) ''machine_instance'' = None)
         \<and> subseq (map metric cluster) cluster_metric_order"
proof -
  let ?m = "reference_time vms"
  let ?blocks = "map (\<lambda>(j, v). vm_samples fl ?m (length vms) j v) (enumerate 0 vms)"
  let ?cluster = "cluster_samples fl (length vms)
                    (after_vms fl ?m (length vms) 0 vms init_vars)"
  have ss: "ss = concat ?blocks @ ?cluster"
    by (rule GetTimeToBoot_Inr(2) [OF assms])
  have len: "length ?blocks = length vms"
    by simp
  have blk: "?blocks ! i = vm_samples fl ?m (length vms) i (vms ! i)" if "i < length vms" for i
    using that by (simp add: nth_enumerate_eq)
  have each: "\<forall>i<length vms.
      (\<forall>s\<in>set (?blocks ! i). map_of (metadata s) ''machine_instance'' = Some (MInt (int i)))
      \<and> subseq (map metric (?blocks ! i)) instance_metric_order"
  proof (intro allI impI)
    fix i assume i: "i < length vms"
    show "(\<forall>s\<in>set (?blocks ! i). map_of (metadata s) ''machine_instance'' = Some (MInt (int i)))
      \<and> subseq (map metric (?blocks ! i)) instance_metric_order"
      unfolding blk [OF i]
      by (simp add: metadata_vm_samples instance_vm_metadata subseq_vm_samples)
  qed
  have cl: "?cluster \<noteq> []
      \<and> (\<forall>s\<in>set ?cluster. map_of (metadata s) ''machine_instance'' = None)
      \<and> subseq (map metric ?cluster) cluster_metric_order"
    by (simp add: cluster_samples_not_Nil instance_cluster_samples subseq_cluster_samples)
  from ss len each cl show ?thesis
    by blast
qed

theorem samples_come_in_a_fixed_order_witness:
  "two_port_vms \<noteq> []
   \<and> (\<exists>ss blocks cluster.
         GetTimeToBoot port_flag two_port_vms = Inr ss
       \<and> ss = concat blocks @ cluster \<and> length blocks = 2
       \<and> (\<forall>i<2.
            (\<forall>s\<in>set (blocks ! i).
               map_of (metadata s) ''machine_instance'' = Some (MInt (int i)))
            \<and> subseq (map metric (blocks ! i)) instance_metric_order)
       \<and> cluster \<noteq> []
       \<and> (\<forall>s\<in>set cluster. map_of (metadata s) ''machine_instance'' = None)
       \<and> subseq (map metric cluster) cluster_metric_order)"
proof -
  have ne: "two_port_vms \<noteq> []"
    by (simp add: two_port_vms_def)
  have len: "length two_port_vms = 2"
    by (simp add: two_port_vms_def)
  have "list_all (vm_asserts port_flag) two_port_vms"
    by (simp add: two_port_vms_def port_vm_def plain_vm_def port_flag_def vm_asserts_def
        required_after_def)
  then obtain ss where ret: "GetTimeToBoot port_flag two_port_vms = Inr ss"
    using GetTimeToBoot_returns_iff [OF ne] by blast
  from samples_come_in_a_fixed_order [OF ne ret] ret ne show ?thesis
    unfolding len by blast
qed

section \<open>Properties of the reboot and delete measurements\<close>

text \<open>
  C7. When every reboot task returns the duration its VM measured, \<open>_MeasureReboot\<close> returns
  one "Reboot Time" sample for each instance, with these durations as values in the order of
  the instances, and one "Cluster Reboot Time" sample whose value is the wall-clock time
  between the reading before the fan-out and the reading after all tasks have returned; it
  is not the maximum of the reported durations. With the reports 5 and 7 and readings eight
  seconds apart the values are 5, 7 and 8.
\<close>

theorem reboot_times_and_cluster_reboot_time:
  assumes "list_all2 (\<lambda>v d. Reboot v = Inr d) vms reboot_times"
  shows "\<exists>ss. MeasureReboot Reboot before_reboot_timestamp after_reboot_timestamp vms = Inr ss
           \<and> map val (named ''Reboot Time'' ss) = reboot_times
           \<and> map val (named ''Cluster Reboot Time'' ss)
               = [after_reboot_timestamp - before_reboot_timestamp]"
proof -
  have run: "RunThreaded Reboot vms = Inr reboot_times"
    using assms by (simp add: RunThreaded_Inr)
  have len: "length reboot_times = length vms"
    using assms by (simp add: list_all2_lengthD)
  show ?thesis
    using operation_samples_values [OF len, of "''Reboot''"]
    by (simp add: MeasureReboot_def run)
qed

theorem reboot_times_and_cluster_reboot_time_witness:
  "list_all2 (\<lambda>v d. reboot_task v = Inr d) two_os_vms [5, 7]
   \<and> (\<exists>ss. MeasureReboot reboot_task 1000 1008 two_os_vms = Inr ss
          \<and> map val (named ''Reboot Time'' ss) = [5, 7]
          \<and> map val (named ''Cluster Reboot Time'' ss) = [8])"
proof -
  have tasks: "list_all2 (\<lambda>v d. reboot_task v = Inr d) two_os_vms [5, 7]"
    by (simp add: two_os_vms_def debian_vm_def plain_vm_def reboot_task_def)
  from reboot_times_and_cluster_reboot_time [OF tasks, of 1000 1008] tasks show ?thesis
    by simp
qed

text \<open>
  C6. When every delete task ends and leaves the delete timestamps of its VM set,
  \<open>MeasureDelete\<close> on a non-empty list returns one "Delete Time" sample for each instance, with
  value \<open>delete_end_time - delete_start_time\<close> of that instance, and one "Cluster Delete Time"
  sample whose value is the greatest \<open>delete_end_time\<close> minus the reading of the clock before
  the fan-out. With the reading 0 and the deletions from 0 to 6 and from 1 to 9 the values
  are 6, 8 and 9.
\<close>

theorem delete_times_and_cluster_delete_time:
  assumes "vms \<noteq> []"
    and "list_all2 (\<lambda>v v'. Delete v = Inr v') vms vms'"
    and "\<forall>v'\<in>set vms'. delete_start_time v' \<noteq> None \<and> delete_end_time v' \<noteq> None"
  shows "\<exists>ss. MeasureDelete Delete before_delete_timestamp vms = Inr ss
           \<and> map val (named ''Delete Time'' ss)
               = map (\<lambda>v'. the (delete_end_time v') - the (delete_start_time v')) vms'
           \<and> map val (named ''Cluster Delete Time'' ss)
               = [Max ((\<lambda>v'. the (delete_end_time v')) ` set vms') - before_delete_timestamp]"
proof -
  have run: "RunThreaded Delete vms = Inr vms'"
    using assms(2) by (simp add: RunThreaded_Inr)
  have ne: "vms' \<noteq> []"
    using assms(1,2) by (auto dest: list_all2_lengthD)
  have both: "list_all (\<lambda>v. delete_start_time v \<noteq> None \<and> delete_end_time v \<noteq> None) vms'"
    using assms(3) by (simp add: list_all_iff)
  then have ends: "list_all (\<lambda>v. delete_end_time v \<noteq> None) vms'"
    by (simp add: list_all_iff)
  let ?dts = "map (\<lambda>v'. the (delete_end_time v') - the (delete_start_time v')) vms'"
  have len: "length ?dts = length vms'"
    by simp
  show ?thesis
    using operation_samples_values [OF len, of "''Delete''"]
    by (simp add: MeasureDelete_def run delete_times_all_set [OF both] py_max_all_set [OF ne ends])
qed

theorem delete_times_and_cluster_delete_time_witness:
  "two_os_vms \<noteq> []
   \<and> list_all2 (\<lambda>v v'. delete_task v = Inr v') two_os_vms two_deleted_vms
   \<and> (\<exists>ss. MeasureDelete delete_task 0 two_os_vms = Inr ss
          \<and> map val (named ''Delete Time'' ss) = [6, 8]
          \<and> map val (named ''Cluster Delete Time'' ss) = [9])"
proof -
  have ne: "two_os_vms \<noteq> []"
    by (simp add: two_os_vms_def)
  have tasks: "list_all2 (\<lambda>v v'. delete_task v = Inr v') two_os_vms two_deleted_vms"
    by (simp add: two_os_vms_def two_deleted_vms_def debian_vm_def plain_vm_def delete_task_def)
  have set: "\<forall>v'\<in>set two_deleted_vms. delete_start_time v' \<noteq> None \<and> delete_end_time v' \<noteq> None"
    by (simp add: two_deleted_vms_def)
  have durations: "map (\<lambda>v'. the (delete_end_time v') - the (delete_start_time v')) two_deleted_vms
      = [6, 8]"
    by (simp add: two_deleted_vms_def)
  have latest: "Max ((\<lambda>v'. the (delete_end_time v')) ` set two_deleted_vms) = 9"
    by (simp add: two_deleted_vms_def)
  from delete_times_and_cluster_delete_time [OF ne tasks set, of 0] ne tasks show ?thesis
    unfolding durations latest by simp
qed

end
